theory Spec2Isabelle
  imports Main
begin

section \<open>Values and strings\<close>

text \<open>
  A column of a \<^verbatim>\<open>sqlite3.Row\<close> is dynamically typed: \<^verbatim>\<open>None\<close> for SQL NULL, an
  \<^verbatim>\<open>int\<close> or a \<^verbatim>\<open>str\<close>. (REAL and BLOB columns are left out of the model.)
\<close>

datatype sqlval = Null | Integer int | Text string

text \<open>Python truthiness, as in \<^verbatim>\<open>if row['start_date']:\<close>.\<close>

fun truthy :: "sqlval \<Rightarrow> bool" where
  "truthy Null = False"
| "truthy (Integer i) = (i \<noteq> 0)"
| "truthy (Text s) = (s \<noteq> [])"

text \<open>\<^verbatim>\<open>str(n)\<close> for an integer: decimal digits, with a sign for negative numbers.\<close>

function str_nat :: "nat \<Rightarrow> string" where
  "str_nat n =
     (if n < 10 then [''0123456789'' ! n]
      else str_nat (n div 10) @ [''0123456789'' ! (n mod 10)])"
  by pat_completeness auto
termination
  by (relation "measure id") auto

definition str_int :: "int \<Rightarrow> string" where
  "str_int i = (if i < 0 then CHR ''-'' # str_nat (nat (- i)) else str_nat (nat i))"

fun py_str :: "sqlval \<Rightarrow> string" where
  "py_str Null = ''None''"
| "py_str (Integer i) = str_int i"
| "py_str (Text s) = s"

text \<open>
  \<^verbatim>\<open>str.strip()\<close> removes leading and trailing whitespace. A character of this model
  is a code point below 256; among these Python counts 9 to 13, 28 to 31, 32, 133
  (U+0085, next line) and 160 (U+00A0, no-break space) as whitespace.
\<close>

definition isspace :: "char \<Rightarrow> bool" where
  "isspace c =
     ((of_char c :: nat) \<in> {9, 10, 11, 12, 13, 28, 29, 30, 31, 32, 133, 160})"

definition strip :: "string \<Rightarrow> string" where
  "strip s = rev (dropWhile isspace (rev (dropWhile isspace s)))"

text \<open>\<^verbatim>\<open>s.replace('Z', '+00:00')\<close>.\<close>

fun replace_Z :: "string \<Rightarrow> string" where
  "replace_Z [] = []"
| "replace_Z (c # cs) =
     (if c = CHR ''Z'' then ''+00:00'' @ replace_Z cs else c # replace_Z cs)"

section \<open>Dates\<close>

text \<open>
  A naive \<^verbatim>\<open>datetime\<close> (the result of \<^verbatim>\<open>datetime.datetime.now()\<close>, a timestamp of
  the terminal) is its calendar reading counted in microseconds, an \<^typ>\<open>int\<close>. The
  result of \<^verbatim>\<open>datetime.fromisoformat\<close> may carry a UTC offset in \<open>tzinfo\<close>.
  \<^verbatim>\<open>fromisoformat\<close> itself belongs to the Python library: the functions below take
  it as the parameter \<open>fromisoformat\<close>, \<open>None\<close> standing for the \<^verbatim>\<open>ValueError\<close> it
  raises on a string it cannot parse.
\<close>

datatype datetime = DateTime (wall: int) (tzinfo: "int option")

definition replace_tzinfo_None :: "datetime \<Rightarrow> datetime" where
  "replace_tzinfo_None d = DateTime (wall d) None"

section \<open>The record store\<close>

text \<open>One row of the table \<^verbatim>\<open>members\<close>, with the columns the query names.\<close>

record row =
  row_id :: sqlval
  row_name :: sqlval
  row_biometric_id :: sqlval
  row_status :: sqlval
  row_start_date :: sqlval
  row_expiry_date :: sqlval
  row_payment_status :: sqlval
  row_deleted_at :: sqlval

text \<open>The dictionary stored in \<^verbatim>\<open>member_map\<close> for a biometric identifier.\<close>

record member_info =
  info_id :: sqlval
  info_name :: sqlval
  info_status :: sqlval
  info_start_date :: sqlval
  info_expiry_date :: sqlval
  info_payment_status :: sqlval

text \<open>
  What \<^verbatim>\<open>get_members_from_db\<close> finds at the database path: no file, a database on
  which \<^verbatim>\<open>sqlite3.connect\<close>, \<^verbatim>\<open>execute\<close> or \<^verbatim>\<open>fetchall\<close> raises, or the rows of the
  table \<^verbatim>\<open>members\<close>.
\<close>

datatype store = NoDbFile | QueryRaises string | Members "row list"

text \<open>
  The \<^verbatim>\<open>WHERE\<close> clause of the query:
  \<^verbatim>\<open>biometric_id IS NOT NULL AND biometric_id != '' AND (deleted_at IS NULL OR deleted_at = '')\<close>.
\<close>

definition sql_where :: "row \<Rightarrow> bool" where
  "sql_where r =
     (row_biometric_id r \<noteq> Null \<and> row_biometric_id r \<noteq> Text [] \<and>
      (row_deleted_at r = Null \<or> row_deleted_at r = Text []))"

text \<open>The lines the routine prints.\<close>

datatype db_log =
    DatabaseNotFound
  | DatabaseQuery nat nat nat
  | DatabaseError string

type_synonym classification = "string list \<times> string list \<times> (string \<rightharpoonup> member_info)"

text \<open>
  The body of \<^verbatim>\<open>for row in rows:\<close> (lines 79 to 119), with the three accumulators
  \<^verbatim>\<open>allowed_users\<close>, \<^verbatim>\<open>denied_users\<close> and \<^verbatim>\<open>member_map\<close>. A bare \<^verbatim>\<open>except: pass\<close>
  around each date leaves \<^verbatim>\<open>start_ok\<close> (\<^verbatim>\<open>end_ok\<close>) at \<^verbatim>\<open>True\<close> when the column is
  not a string (\<^verbatim>\<open>.replace\<close> raises) or does not parse.
\<close>

fun members_loop ::
  "(string \<Rightarrow> datetime option) \<Rightarrow> int \<Rightarrow> row list \<Rightarrow> classification \<Rightarrow> classification"
where
  "members_loop fromisoformat now [] acc = acc"
| "members_loop fromisoformat now (r # rows) (allowed_users, denied_users, member_map) =
     (let biometric_id = strip (py_str (row_biometric_id r)) in
      if biometric_id = [] then
        members_loop fromisoformat now rows (allowed_users, denied_users, member_map)
      else
        let member_map' = member_map(biometric_id \<mapsto>
              \<lparr>info_id = row_id r, info_name = row_name r, info_status = row_status r,
               info_start_date = row_start_date r, info_expiry_date = row_expiry_date r,
               info_payment_status = row_payment_status r\<rparr>);
            status_ok = (row_status r = Text ''active'');
            start_ok =
              (if truthy (row_start_date r) then
                 (case row_start_date r of
                    Text s \<Rightarrow>
                      (case fromisoformat (replace_Z s) of
                         Some start_date \<Rightarrow>
                           (if tzinfo start_date \<noteq> None
                            then wall (replace_tzinfo_None start_date) \<le> now
                            else wall start_date \<le> now)
                       | None \<Rightarrow> True)
                  | _ \<Rightarrow> True)
               else True);
            end_ok =
              (if truthy (row_expiry_date r) then
                 (case row_expiry_date r of
                    Text s \<Rightarrow>
                      (case fromisoformat (replace_Z s) of
                         Some expiry_date \<Rightarrow>
                           (if tzinfo expiry_date \<noteq> None
                            then now \<le> wall (replace_tzinfo_None expiry_date)
                            else now \<le> wall expiry_date)
                       | None \<Rightarrow> True)
                  | _ \<Rightarrow> True)
               else True);
            payment_ok = (row_payment_status r \<notin> set [Text ''pending'', Text ''overdue'']);
            allowed = (status_ok \<and> start_ok \<and> end_ok \<and> payment_ok)
        in
          if allowed then
            members_loop fromisoformat now rows
              (allowed_users @ [biometric_id], denied_users, member_map')
          else
            members_loop fromisoformat now rows
              (allowed_users, denied_users @ [biometric_id], member_map'))"

text \<open>
  \<^verbatim>\<open>get_members_from_db\<close>: the classification and the lines printed. \<open>now\<close> is the
  reading of \<^verbatim>\<open>datetime.datetime.now()\<close> at line 77. The size of the dictionary that
  the last line prints is the number of distinct keys stored.
\<close>

definition get_members_from_db ::
  "(string \<Rightarrow> datetime option) \<Rightarrow> int \<Rightarrow> store \<Rightarrow> classification \<times> db_log list"
where
  "get_members_from_db fromisoformat now db =
     (case db of
        NoDbFile \<Rightarrow> (([], [], Map.empty), [DatabaseNotFound])
      | QueryRaises e \<Rightarrow> (([], [], Map.empty), [DatabaseError e])
      | Members table \<Rightarrow>
          (let rows = filter sql_where table;
               (allowed_users, denied_users, member_map) =
                  members_loop fromisoformat now rows ([], [], Map.empty)
           in ((allowed_users, denied_users, member_map),
               [DatabaseQuery (length allowed_users) (length denied_users)
                  (length (remdups (allowed_users @ denied_users)))])))"

section \<open>The terminal and the attendance endpoint\<close>

text \<open>
  The exceptions a call on the terminal raises. All three are caught by
  \<^verbatim>\<open>except Exception\<close>; \<open>str_exn\<close> is the message that \<^verbatim>\<open>{e}\<close> prints.
  \<^verbatim>\<open>KeyboardInterrupt\<close> is not an \<^verbatim>\<open>Exception\<close>: it is a signal, which the model
  delivers where the supervisor blocks (\<open>signal\<close> below).
\<close>

datatype exn = ZKNetworkError string | ZKErrorResponse string | OtherException string

fun str_exn :: "exn \<Rightarrow> string" where
  "str_exn (ZKNetworkError m) = m"
| "str_exn (ZKErrorResponse m) = m"
| "str_exn (OtherException m) = m"

text \<open>A user enrolled on the terminal, as \<^verbatim>\<open>conn.get_users()\<close> returns it.\<close>

record device_user =
  du_uid :: int
  du_name :: string
  du_password :: string
  du_user_id :: string

text \<open>The keyword arguments of one \<^verbatim>\<open>conn.set_user(...)\<close> call.\<close>

record set_user_call =
  su_uid :: int
  su_name :: string
  su_privilege :: int
  su_password :: string
  su_group_id :: string
  su_user_id :: string
  su_card :: int

text \<open>\<^verbatim>\<open>const.USER_DEFAULT\<close> of the terminal's library.\<close>

definition USER_DEFAULT :: int where
  "USER_DEFAULT = 0"

text \<open>The JSON body posted to the attendance endpoint.\<close>

record payload =
  att_biometricId :: string
  att_memberId :: sqlval
  att_memberName :: sqlval
  att_allowed :: bool
  att_reason :: string
  att_timestamp :: int

text \<open>A line of JSON that the bridge prints on standard output.\<close>

datatype json_line =
    StatusLine string
  | ConnectedLine string int
  | ScanLine string string
  | ErrorLine string

text \<open>
  What the program does to the outside, in order: each call on the terminal (whether
  it then succeeds or raises), each request to the attendance endpoint, each read of the
  record store, each sleep (in seconds; \<open>SleepHalfSecond\<close> is \<^verbatim>\<open>time.sleep(0.5)\<close>),
  the lines printed inside the loops of the access-group routine (the user being set
  with its group, and the warning of a failed call) and the bridge's output lines. The
  other console lines are not modelled.
\<close>

datatype action =
    ZkConnect
  | ZkDisconnect
  | ZkDisableDevice
  | ZkEnableDevice
  | ZkGetUsers
  | ZkSetUser set_user_call
  | ZkUnlock int
  | HttpPost payload
  | GetMembersFromDb
  | TimeSleep int
  | SleepHalfSecond
  | PrintSettingUser string string
  | PrintWarning string
  | PrintFailedToConfigure string
  | PrintJson json_line

subsection \<open>Access-group synchronisation\<close>

text \<open>\<^verbatim>\<open>{str(u.user_id): u for u in all_users}\<close>: a later user replaces an earlier one.\<close>

definition user_dict_of :: "device_user list \<Rightarrow> (string \<rightharpoonup> device_user)" where
  "user_dict_of all_users = foldl (\<lambda>m u. m(du_user_id u \<mapsto> u)) Map.empty all_users"

text \<open>
  One of the two loops of \<^verbatim>\<open>configure_device_access_groups\<close> (lines 141 to 156 with
  group \<^verbatim>\<open>'1'\<close>, lines 159 to 174 with group \<^verbatim>\<open>'0'\<close>). \<open>set_user_result k\<close> is what the
  terminal answers to the \<open>k\<close>-th \<^verbatim>\<open>set_user\<close> call of the routine: \<open>None\<close> when it
  succeeds, the exception when it raises. The second component counts the calls made.
\<close>

fun set_group_loop ::
  "string \<Rightarrow> (string \<rightharpoonup> device_user) \<Rightarrow> (nat \<Rightarrow> exn option) \<Rightarrow> nat \<Rightarrow> string list
     \<Rightarrow> action list \<times> nat"
where
  "set_group_loop group_id user_dict set_user_result k [] = ([], k)"
| "set_group_loop group_id user_dict set_user_result k (uid # uids) =
     (case user_dict uid of
        None \<Rightarrow> set_group_loop group_id user_dict set_user_result k uids
      | Some user \<Rightarrow>
          (let call = ZkSetUser
                 \<lparr>su_uid = du_uid user, su_name = du_name user, su_privilege = USER_DEFAULT,
                  su_password = du_password user, su_group_id = group_id, su_user_id = uid,
                  su_card = 0\<rparr>;
               caught = (case set_user_result k of
                           None \<Rightarrow> []
                         | Some e \<Rightarrow> [PrintWarning (str_exn e)]);
               (rest, k') = set_group_loop group_id user_dict set_user_result (Suc k) uids
           in (PrintSettingUser uid group_id # call # caught @ rest, k')))"

text \<open>
  \<^verbatim>\<open>configure_device_access_groups(conn, allowed_users, denied_users)\<close>.
  \<open>get_users_result\<close> is what \<^verbatim>\<open>conn.get_users()\<close> does: it raises (\<open>Inl\<close>) or returns
  the enrolled users. The outer \<^verbatim>\<open>except Exception\<close> catches that failure, so the
  routine always returns.
\<close>

definition configure_device_access_groups ::
  "(exn + device_user list) \<Rightarrow> (nat \<Rightarrow> exn option) \<Rightarrow> string list \<Rightarrow> string list \<Rightarrow> action list"
where
  "configure_device_access_groups get_users_result set_user_result allowed_users denied_users =
     (case get_users_result of
        Inl e \<Rightarrow> [ZkGetUsers, PrintFailedToConfigure (str_exn e)]
      | Inr all_users \<Rightarrow>
          (let user_dict = user_dict_of all_users;
               (tr_allowed, k) = set_group_loop ''1'' user_dict set_user_result 0 allowed_users;
               (tr_denied, k') = set_group_loop ''0'' user_dict set_user_result k denied_users
           in ZkGetUsers # tr_allowed @ tr_denied))"

subsection \<open>Processing one scan\<close>

text \<open>
  \<^verbatim>\<open>send_attendance_event\<close>: one \<^verbatim>\<open>requests.post\<close>. The status code and every
  exception of the request only choose the line printed, so the function always returns.
\<close>

definition send_attendance_event ::
  "string \<Rightarrow> sqlval \<Rightarrow> sqlval \<Rightarrow> bool \<Rightarrow> string \<Rightarrow> int \<Rightarrow> action list"
where
  "send_attendance_event user_id member_id member_name allowed reason timestamp =
     [HttpPost \<lparr>att_biometricId = user_id, att_memberId = member_id,
                att_memberName = member_name, att_allowed = allowed, att_reason = reason,
                att_timestamp = timestamp\<rparr>]"

text \<open>
  \<^verbatim>\<open>process_scan(conn, uid, timestamp, allowed_users, denied_users, member_map)\<close>.
  \<open>UNLOCK_SECS\<close> is the configured unlock time, \<open>unlock_result\<close> what \<^verbatim>\<open>conn.unlock\<close>
  does if it is called (\<open>None\<close>: it returns; \<open>Some e\<close>: it raises \<open>e\<close>), \<open>now\<close> the
  reading of the clock at line 213. \<^verbatim>\<open>member_map.get(uid, {})\<close> is the empty dictionary
  when the identifier has no snapshot: \<open>None\<close> here.
\<close>

definition process_scan ::
  "int \<Rightarrow> exn option \<Rightarrow> int \<Rightarrow> string \<Rightarrow> int option \<Rightarrow> string list \<Rightarrow> string list
     \<Rightarrow> (string \<rightharpoonup> member_info) \<Rightarrow> action list"
where
  "process_scan UNLOCK_SECS unlock_result now uid timestamp allowed_users denied_users member_map =
     (let member_info = member_map uid;
          member_id = (case member_info of None \<Rightarrow> Null | Some i \<Rightarrow> info_id i);
          member_name =
            (case member_info of None \<Rightarrow> Text (''User '' @ uid) | Some i \<Rightarrow> info_name i);
          timestamp_or_now = (case timestamp of Some t \<Rightarrow> t | None \<Rightarrow> now)
      in
        if uid \<in> set allowed_users then
          (case unlock_result of
             None \<Rightarrow>
               ZkUnlock UNLOCK_SECS #
               send_attendance_event uid member_id member_name True ''allowed'' timestamp_or_now
           | Some e \<Rightarrow>
               ZkUnlock UNLOCK_SECS #
               send_attendance_event uid member_id member_name False ''relay_error''
                 timestamp_or_now)
        else if uid \<in> set denied_users then
          (let reason =
             (case member_info of
                None \<Rightarrow> ''denied''
              | Some i \<Rightarrow>
                  if info_status i \<noteq> Text ''active'' then ''inactive''
                  else if info_payment_status i \<in> set [Text ''pending'', Text ''overdue'']
                  then ''payment_'' @ py_str (info_payment_status i)
                  else ''expired'')
           in send_attendance_event uid member_id member_name False reason timestamp_or_now)
        else
          send_attendance_event uid Null Null False ''unknown_user'' timestamp_or_now)"

section \<open>The supervisor of the service\<close>

text \<open>
  The functions of the Python library and the configuration that the supervisor uses:
  \<^verbatim>\<open>datetime.fromisoformat\<close>, the text \<^verbatim>\<open>{ts}\<close> of a timestamp in an f-string,
  \<^verbatim>\<open>UNLOCK_SECS\<close>, and the iteration order of a \<^verbatim>\<open>set\<close>: \<open>p_first xs\<close> chooses which
  element of the set \<open>xs\<close> the expression \<^verbatim>\<open>list(seen_events)[0]\<close> returns (see \<open>dedup\<close>).
\<close>

record params =
  p_fromisoformat :: "string \<Rightarrow> datetime option"
  p_str_datetime :: "int \<Rightarrow> string"
  p_UNLOCK_SECS :: int
  p_first :: "string list \<Rightarrow> nat"

text \<open>\<^verbatim>\<open>f"{uid}-{ts}"\<close>, where \<^verbatim>\<open>ts\<close> may be \<^verbatim>\<open>None\<close>.\<close>

definition event_key :: "(int \<Rightarrow> string) \<Rightarrow> string \<Rightarrow> int option \<Rightarrow> string" where
  "event_key str_datetime uid ts =
     uid @ ''-'' @ (case ts of None \<Rightarrow> ''None'' | Some t \<Rightarrow> str_datetime t)"

text \<open>
  The de-duplication lines, the same in both programs (service lines 338 to 344, bridge
  lines 97 to 103). The set \<^verbatim>\<open>seen_events\<close> is a list without repetitions. The result
  is \<open>None\<close> when the key is in the set (\<^verbatim>\<open>continue\<close>), and the new set otherwise: the
  key is added and, once the set has more than 500 elements, the element that
  \<^verbatim>\<open>list(seen_events)[0]\<close> returns is removed. Which one that is depends on the hashes of
  the strings: \<open>first\<close> gives its position.
\<close>

definition dedup :: "(string list \<Rightarrow> nat) \<Rightarrow> string list \<Rightarrow> string \<Rightarrow> string list option" where
  "dedup first seen_events key =
     (if key \<in> set seen_events then None
      else
        (let added = seen_events @ [key] in
         if length added > 500 then
           (let oldest = added ! (first added mod length added) in Some (remove1 oldest added))
         else Some added))"

text \<open>
  An item of \<^verbatim>\<open>conn.live_capture()\<close>: \<^verbatim>\<open>None\<close> on a timeout, or an attendance with its
  \<^verbatim>\<open>user_id\<close> and \<^verbatim>\<open>timestamp\<close>. With it, what the outside answers while the item is
  processed: the clock and the result of \<^verbatim>\<open>conn.unlock\<close>.
\<close>

record attendance =
  user_id :: string
  timestamp :: "int option"

record event =
  ev_attendance :: "attendance option"
  ev_now :: int
  ev_unlock :: "exn option"

text \<open>The local variables of \<^verbatim>\<open>main\<close>.\<close>

record main_state =
  seen_events :: "string list"
  reconnect_delay :: int
  device_configured :: bool
  last_db_refresh :: int
  allowed_users :: "string list"
  denied_users :: "string list"
  member_map :: "string \<rightharpoonup> member_info"

text \<open>The body of \<^verbatim>\<open>for attendance in conn.live_capture():\<close> (lines 328 to 346).\<close>

definition handle_event :: "params \<Rightarrow> main_state \<Rightarrow> event \<Rightarrow> main_state \<times> action list" where
  "handle_event p st ev =
     (case ev_attendance ev of
        None \<Rightarrow> (st, [])
      | Some a \<Rightarrow>
          (let uid = user_id a; ts = timestamp a in
           if uid = [] then (st, [])
           else
             (case dedup (p_first p) (seen_events st) (event_key (p_str_datetime p) uid ts) of
                None \<Rightarrow> (st, [])
              | Some seen \<Rightarrow>
                  (st\<lparr>seen_events := seen\<rparr>,
                   process_scan (p_UNLOCK_SECS p) (ev_unlock ev) (ev_now ev) uid ts
                     (allowed_users st) (denied_users st) (member_map st)))))"

fun live_capture_loop :: "params \<Rightarrow> main_state \<Rightarrow> event list \<Rightarrow> main_state \<times> action list" where
  "live_capture_loop p st [] = (st, [])"
| "live_capture_loop p st (ev # evs) =
     (let (st', tr) = handle_event p st ev;
          (st'', tr') = live_capture_loop p st' evs
      in (st'', tr @ tr'))"

text \<open>
  How a blocking call ends when it does not return: it raises an exception, or the
  process receives \<^verbatim>\<open>KeyboardInterrupt\<close>.
\<close>

datatype signal = Raises exn | KeyboardInterrupt

text \<open>
  What the outside does during one pass of \<^verbatim>\<open>while True:\<close>: the result of
  \<^verbatim>\<open>connect_device()\<close> (\<open>None\<close>: connected), the three readings of the clock (lines
  292, 77 and 296), the content of the store, the results of the calls on the terminal,
  the items of the live capture, and how the live capture ends (\<open>None\<close>: the generator
  is exhausted).
\<close>

record session =
  s_connect :: "signal option"
  s_clock :: int
  s_store :: store
  s_query_now :: int
  s_clock_after :: int
  s_disable :: "exn option"
  s_get_users :: "exn + device_user list"
  s_set_user :: "nat \<Rightarrow> exn option"
  s_enable :: "exn option"
  s_events :: "event list"
  s_live_end :: "signal option"
  s_disconnect :: "exn option"

text \<open>
  \<^verbatim>\<open>db_refresh_interval\<close>, and the test of line 292: clock readings are in
  microseconds, and \<^verbatim>\<open>total_seconds() > 300\<close> holds when more than 300 000 000 of them
  have passed.
\<close>

definition db_refresh_interval :: int where
  "db_refresh_interval = 300"

definition refresh_due :: "int \<Rightarrow> int \<Rightarrow> bool" where
  "refresh_due clock refreshed = (clock - refreshed > db_refresh_interval * 1000000)"

text \<open>
  Lines 291 to 315, between the connection and the monitoring: the periodic refresh,
  \<^verbatim>\<open>disable_device\<close>, the access groups when \<^verbatim>\<open>device_configured\<close> is false, and
  \<^verbatim>\<open>enable_device\<close>. The two device calls sit in \<^verbatim>\<open>try: ... except: pass\<close>.
\<close>

definition refresh_members :: "params \<Rightarrow> main_state \<Rightarrow> session \<Rightarrow> main_state \<times> action list" where
  "refresh_members p st s =
     (if refresh_due (s_clock s) (last_db_refresh st) then
        (let ((a, d, m), printed) =
               get_members_from_db (p_fromisoformat p) (s_query_now s) (s_store s)
         in (st\<lparr>allowed_users := a, denied_users := d, member_map := m,
                device_configured := False, last_db_refresh := s_clock_after s\<rparr>,
             [GetMembersFromDb]))
      else (st, []))"

definition setup_phase :: "params \<Rightarrow> main_state \<Rightarrow> session \<Rightarrow> main_state \<times> action list" where
  "setup_phase p st s =
     (let (st1, tr1) = refresh_members p st s;
          (st2, tr2) =
            (if \<not> device_configured st1 then
               (st1\<lparr>device_configured := True\<rparr>,
                configure_device_access_groups (s_get_users s) (s_set_user s)
                  (allowed_users st1) (denied_users st1))
             else (st1, []))
      in (st2, tr1 @ [ZkDisableDevice] @ tr2 @ [ZkEnableDevice]))"

text \<open>\<^verbatim>\<open>min(reconnect_delay * 2, 60)\<close>.\<close>

definition next_delay :: "int \<Rightarrow> int" where
  "next_delay d = min (d * 2) 60"

text \<open>
  One pass of \<^verbatim>\<open>while True:\<close> (lines 287 to 363). The third component is true when
  the loop is left by \<^verbatim>\<open>break\<close>. The handler of an exception runs before the
  \<^verbatim>\<open>finally\<close> clause, which disconnects only when the connection was made.
\<close>

definition session_pass :: "params \<Rightarrow> main_state \<Rightarrow> session \<Rightarrow> main_state \<times> action list \<times> bool" where
  "session_pass p st s =
     (case s_connect s of
        Some KeyboardInterrupt \<Rightarrow> (st, [ZkConnect], True)
      | Some (Raises e) \<Rightarrow>
          (st\<lparr>reconnect_delay := next_delay (reconnect_delay st)\<rparr>,
           [ZkConnect, TimeSleep (reconnect_delay st)], False)
      | None \<Rightarrow>
          (let (st1, tr1) = setup_phase p st s;
               st2 = st1\<lparr>reconnect_delay := 2\<rparr>;
               (st3, tr3) = live_capture_loop p st2 (s_events s)
           in
             (case s_live_end s of
                None \<Rightarrow> (st3, ZkConnect # tr1 @ tr3 @ [ZkDisconnect], False)
              | Some KeyboardInterrupt \<Rightarrow> (st3, ZkConnect # tr1 @ tr3 @ [ZkDisconnect], True)
              | Some (Raises e) \<Rightarrow>
                  (st3\<lparr>reconnect_delay := next_delay (reconnect_delay st3)\<rparr>,
                   ZkConnect # tr1 @ tr3 @ [TimeSleep (reconnect_delay st3), ZkDisconnect],
                   False))))"

text \<open>
  The loop \<^verbatim>\<open>while True:\<close>, run over the passes that a finite observation contains; it
  stops early at \<^verbatim>\<open>break\<close>.
\<close>

fun main_loop :: "params \<Rightarrow> main_state \<Rightarrow> session list \<Rightarrow> main_state \<times> action list" where
  "main_loop p st [] = (st, [])"
| "main_loop p st (s # ss) =
     (let (st', tr, stop) = session_pass p st s in
      if stop then (st', tr)
      else (let (st'', tr') = main_loop p st' ss in (st'', tr @ tr')))"

text \<open>
  \<^verbatim>\<open>main\<close>: lines 266 to 273 set the variables; \<open>clock0\<close> is the reading of line 269,
  \<open>query_now0\<close> and \<open>store0\<close> belong to the first load.
\<close>

definition initial_state :: "params \<Rightarrow> int \<Rightarrow> int \<Rightarrow> store \<Rightarrow> main_state" where
  "initial_state p clock0 query_now0 store0 =
     (let ((a, d, m), printed) = get_members_from_db (p_fromisoformat p) query_now0 store0
      in \<lparr>seen_events = [], reconnect_delay = 2, device_configured = False,
          last_db_refresh = clock0, allowed_users = a, denied_users = d, member_map = m\<rparr>)"

definition main :: "params \<Rightarrow> int \<Rightarrow> int \<Rightarrow> store \<Rightarrow> session list \<Rightarrow> main_state \<times> action list" where
  "main p clock0 query_now0 store0 sessions =
     (let (st, tr) = main_loop p (initial_state p clock0 query_now0 store0) sessions
      in (st, GetMembersFromDb # tr))"

section \<open>The bridge\<close>

subsection \<open>Monitoring\<close>

text \<open>
  The library functions that \<^verbatim>\<open>monitor_scans\<close> uses: the text of a timestamp in the
  event key, \<^verbatim>\<open>isoformat()\<close>, and the iteration order of the set (as in \<open>params\<close>).
\<close>

record bridge_params =
  b_str_datetime :: "int \<Rightarrow> string"
  b_isoformat :: "int \<Rightarrow> string"
  b_first :: "string list \<Rightarrow> nat"

record bridge_event =
  be_attendance :: "attendance option"
  be_now :: int

record bridge_session =
  b_connect :: "signal option"
  b_disable :: "exn option"
  b_enable :: "exn option"
  b_events :: "bridge_event list"
  b_live_end :: "signal option"
  b_disconnect :: "exn option"

text \<open>
  The body of the \<^verbatim>\<open>for\<close> loop (lines 87 to 110) on the set \<^verbatim>\<open>seen_events\<close>: a fresh
  scan is printed as a line of JSON.
\<close>

definition bridge_handle_event ::
  "bridge_params \<Rightarrow> string list \<Rightarrow> bridge_event \<Rightarrow> string list \<times> action list"
where
  "bridge_handle_event bp seen ev =
     (case be_attendance ev of
        None \<Rightarrow> (seen, [])
      | Some a \<Rightarrow>
          (let uid = user_id a; ts = timestamp a in
           if uid = [] then (seen, [])
           else
             (case dedup (b_first bp) seen (event_key (b_str_datetime bp) uid ts) of
                None \<Rightarrow> (seen, [])
              | Some seen' \<Rightarrow>
                  (seen',
                   [PrintJson (ScanLine uid
                      (case ts of Some t \<Rightarrow> b_isoformat bp t
                                | None \<Rightarrow> b_isoformat bp (be_now ev)))]))))"

fun bridge_live_loop ::
  "bridge_params \<Rightarrow> string list \<Rightarrow> bridge_event list \<Rightarrow> string list \<times> action list"
where
  "bridge_live_loop bp seen [] = (seen, [])"
| "bridge_live_loop bp seen (ev # evs) =
     (let (seen', tr) = bridge_handle_event bp seen ev;
          (seen'', tr') = bridge_live_loop bp seen' evs
      in (seen'', tr @ tr'))"

definition max_reconnect_delay :: int where
  "max_reconnect_delay = 60"

text \<open>
  One pass of \<^verbatim>\<open>while True:\<close> in \<^verbatim>\<open>monitor_scans\<close> (lines 67 to 128) on the pair
  \<^verbatim>\<open>(seen_events, reconnect_delay)\<close>. The setup is a single \<^verbatim>\<open>try\<close>: when
  \<^verbatim>\<open>disable_device\<close> raises, neither the sleep nor \<^verbatim>\<open>enable_device\<close> runs.
\<close>

definition bridge_pass ::
  "bridge_params \<Rightarrow> string \<Rightarrow> int \<Rightarrow> int \<Rightarrow> int \<Rightarrow> string list \<times> int \<Rightarrow> bridge_session
     \<Rightarrow> (string list \<times> int) \<times> action list \<times> bool"
where
  "bridge_pass bp ip port comm_key unlock_seconds st s =
     (let (seen, delay) = st;
          connecting = PrintJson (StatusLine (''Connecting to '' @ ip @ '':'' @ str_int port));
          stopped = PrintJson (StatusLine ''Service stopped by user'')
      in
        case b_connect s of
          Some KeyboardInterrupt \<Rightarrow> ((seen, delay), [connecting, ZkConnect, stopped], True)
        | Some (Raises e) \<Rightarrow>
            ((seen, min (delay * 2) max_reconnect_delay),
             [connecting, ZkConnect,
              PrintJson (ErrorLine (str_exn e)),
              PrintJson (StatusLine (''Reconnecting in '' @ str_int delay @ '' seconds...'')),
              TimeSleep delay],
             False)
        | None \<Rightarrow>
            (let setup = (case b_disable s of
                            Some e \<Rightarrow> [ZkDisableDevice]
                          | None \<Rightarrow> [ZkDisableDevice, SleepHalfSecond, ZkEnableDevice]);
                 delay2 = 2;
                 (seen3, tr3) = bridge_live_loop bp seen (b_events s);
                 head = [connecting, ZkConnect, PrintJson (ConnectedLine ip port)] @ setup @ tr3
             in
               (case b_live_end s of
                  None \<Rightarrow> ((seen3, delay2), head @ [ZkDisconnect], False)
                | Some KeyboardInterrupt \<Rightarrow>
                    ((seen3, delay2), head @ [stopped, ZkDisconnect], True)
                | Some (Raises e) \<Rightarrow>
                    ((seen3, min (delay2 * 2) max_reconnect_delay),
                     head @
                     [PrintJson (ErrorLine (str_exn e)),
                      PrintJson (StatusLine
                        (''Reconnecting in '' @ str_int delay2 @ '' seconds...'')),
                      TimeSleep delay2, ZkDisconnect],
                     False))))"

fun monitor_loop ::
  "bridge_params \<Rightarrow> string \<Rightarrow> int \<Rightarrow> int \<Rightarrow> int \<Rightarrow> string list \<times> int \<Rightarrow> bridge_session list
     \<Rightarrow> (string list \<times> int) \<times> action list"
where
  "monitor_loop bp ip port comm_key unlock_seconds st [] = (st, [])"
| "monitor_loop bp ip port comm_key unlock_seconds st (s # ss) =
     (let (st', tr, stop) = bridge_pass bp ip port comm_key unlock_seconds st s in
      if stop then (st', tr)
      else (let (st'', tr') = monitor_loop bp ip port comm_key unlock_seconds st' ss
            in (st'', tr @ tr')))"

text \<open>\<^verbatim>\<open>monitor_scans(ip, port, comm_key, unlock_seconds)\<close>: everything it does.\<close>

definition monitor_scans ::
  "bridge_params \<Rightarrow> string \<Rightarrow> int \<Rightarrow> int \<Rightarrow> int \<Rightarrow> bridge_session list \<Rightarrow> action list"
where
  "monitor_scans bp ip port comm_key unlock_seconds sessions =
     PrintJson (StatusLine ''Starting biometric monitoring service'') #
     snd (monitor_loop bp ip port comm_key unlock_seconds ([], 2) sessions)"

text \<open>The lines of JSON among the actions: the output stream of the command.\<close>

fun json_lines :: "action list \<Rightarrow> json_line list" where
  "json_lines [] = []"
| "json_lines (PrintJson l # tr) = l # json_lines tr"
| "json_lines (a # tr) = json_lines tr"

fun is_unlock :: "action \<Rightarrow> bool" where
  "is_unlock (ZkUnlock n) = True"
| "is_unlock a = False"

subsection \<open>Access-group synchronisation from a member list\<close>

text \<open>
  A value of the parsed \<^verbatim>\<open>members_json\<close> (floats, arrays and nested objects are left
  out), its truthiness and its \<^verbatim>\<open>str\<close>.
\<close>

datatype json = JNull | JBool bool | JInt int | JStr string

fun json_truthy :: "json \<Rightarrow> bool" where
  "json_truthy JNull = False"
| "json_truthy (JBool b) = b"
| "json_truthy (JInt i) = (i \<noteq> 0)"
| "json_truthy (JStr s) = (s \<noteq> [])"

fun json_str :: "json \<Rightarrow> string" where
  "json_str JNull = ''None''"
| "json_str (JBool b) = (if b then ''True'' else ''False'')"
| "json_str (JInt i) = str_int i"
| "json_str (JStr s) = s"

text \<open>
  An element of the member list: an object, of which the routine reads three keys
  (\<open>None\<close>: the key is missing), or something that has no \<^verbatim>\<open>.get\<close>, given by the
  name of its type, which the message of the \<^verbatim>\<open>AttributeError\<close> quotes.
\<close>

record member_entry =
  me_biometricId :: "json option"
  me_biometric_id :: "json option"
  me_allowed :: "json option"

datatype member_json = MemberObject member_entry | NotAnObject string

datatype sync_item = SyncSet string json | SyncFailed string string

datatype sync_result = SyncSuccess "sync_item list" | SyncError string

text \<open>
  \<^verbatim>\<open>str(member.get("biometricId") or member.get("biometric_id", ""))\<close> and
  \<^verbatim>\<open>member.get("allowed", False)\<close>.
\<close>

definition entry_biometric_id :: "member_entry \<Rightarrow> string" where
  "entry_biometric_id m =
     (let x = (case me_biometricId m of None \<Rightarrow> JNull | Some v \<Rightarrow> v) in
      if json_truthy x then json_str x
      else json_str (case me_biometric_id m of None \<Rightarrow> JStr [] | Some v \<Rightarrow> v))"

definition entry_allowed :: "member_entry \<Rightarrow> json" where
  "entry_allowed m = (case me_allowed m of None \<Rightarrow> JBool False | Some v \<Rightarrow> v)"

text \<open>
  The loop of lines 30 to 51. The result is what was done, the \<^verbatim>\<open>results\<close> list, and
  the exception that leaves the loop, if any: an element without \<^verbatim>\<open>.get\<close> raises
  \<^verbatim>\<open>AttributeError\<close> outside the inner \<^verbatim>\<open>try\<close>.
\<close>

fun sync_loop ::
  "(string \<rightharpoonup> device_user) \<Rightarrow> (nat \<Rightarrow> exn option) \<Rightarrow> nat \<Rightarrow> member_json list
     \<Rightarrow> action list \<times> sync_item list \<times> exn option"
where
  "sync_loop user_dict set_user_result k [] = ([], [], None)"
| "sync_loop user_dict set_user_result k (NotAnObject type_name # members) =
     ([], [], Some (OtherException
        ([CHR 0x27] @ type_name @ [CHR 0x27] @ '' object has no attribute '' @
         [CHR 0x27] @ ''get'' @ [CHR 0x27])))"
| "sync_loop user_dict set_user_result k (MemberObject m # members) =
     (let biometric_id = entry_biometric_id m in
      if biometric_id = [] \<or> user_dict biometric_id = None then
        sync_loop user_dict set_user_result k members
      else
        (case user_dict biometric_id of
           None \<Rightarrow> sync_loop user_dict set_user_result k members
         | Some user \<Rightarrow>
             (let allowed = entry_allowed m;
                  group_id = (if json_truthy allowed then 1 else 0);
                  call = ZkSetUser
                    \<lparr>su_uid = du_uid user, su_name = du_name user,
                     su_privilege = USER_DEFAULT, su_password = du_password user,
                     su_group_id = str_int group_id, su_user_id = biometric_id,
                     su_card = 0\<rparr>;
                  item = (case set_user_result k of
                            None \<Rightarrow> SyncSet biometric_id allowed
                          | Some e \<Rightarrow> SyncFailed biometric_id (str_exn e));
                  (tr, results, raised) =
                    sync_loop user_dict set_user_result (Suc k) members
              in (call # tr, item # results, raised))))"

text \<open>
  \<^verbatim>\<open>sync_access_groups(ip, port, comm_key, members_json)\<close>. The outside: the result of
  the connection, of \<^verbatim>\<open>json.loads\<close> (\<open>Inl\<close>: it raises), of \<^verbatim>\<open>get_users\<close>, of each
  \<^verbatim>\<open>set_user\<close> call and of \<^verbatim>\<open>disconnect\<close>. Any exception outside the inner \<^verbatim>\<open>try\<close>
  ends the routine with \<^verbatim>\<open>{"success": False, ...}\<close>.
\<close>

definition sync_access_groups ::
  "exn option \<Rightarrow> (exn + member_json list) \<Rightarrow> (exn + device_user list) \<Rightarrow> (nat \<Rightarrow> exn option)
     \<Rightarrow> exn option \<Rightarrow> action list \<times> sync_result"
where
  "sync_access_groups connect_result members_result get_users_result set_user_result
       disconnect_result =
     (case connect_result of
        Some e \<Rightarrow> ([ZkConnect], SyncError (str_exn e))
      | None \<Rightarrow>
          (case members_result of
             Inl e \<Rightarrow> ([ZkConnect], SyncError (str_exn e))
           | Inr members \<Rightarrow>
               (case get_users_result of
                  Inl e \<Rightarrow> ([ZkConnect, ZkGetUsers], SyncError (str_exn e))
                | Inr all_users \<Rightarrow>
                    (let (tr, results, raised) =
                           sync_loop (user_dict_of all_users) set_user_result 0 members
                     in case raised of
                          Some e \<Rightarrow> (ZkConnect # ZkGetUsers # tr, SyncError (str_exn e))
                        | None \<Rightarrow>
                            (case disconnect_result of
                               Some e \<Rightarrow>
                                 (ZkConnect # ZkGetUsers # tr @ [ZkDisconnect],
                                  SyncError (str_exn e))
                             | None \<Rightarrow>
                                 (ZkConnect # ZkGetUsers # tr @ [ZkDisconnect],
                                  SyncSuccess results))))))"

section \<open>The specification's notions\<close>

text \<open>
  The definitions of this section follow the words of the specification; the theorems
  compare them with the functions above.
\<close>

text \<open>The identifier under which the classification files a record.\<close>

definition record_key :: "row \<Rightarrow> string" where
  "record_key r = strip (py_str (row_biometric_id r))"

text \<open>A record is soft-deleted when \<^verbatim>\<open>deleted_at\<close> is neither NULL nor empty.\<close>

definition soft_deleted :: "row \<Rightarrow> bool" where
  "soft_deleted r = (row_deleted_at r \<noteq> Null \<and> row_deleted_at r \<noteq> Text [])"

text \<open>
  The filtering rule: the biometric identifier is non-null, non-empty after trimming,
  and the record is not soft-deleted.
\<close>

definition qualifies :: "row \<Rightarrow> bool" where
  "qualifies r =
     (row_biometric_id r \<noteq> Null \<and> strip (py_str (row_biometric_id r)) \<noteq> [] \<and>
      \<not> soft_deleted r)"

text \<open>
  The date in a column: \<open>None\<close> when the column is absent (NULL, empty) or does not
  parse, and the calendar reading of the parsed date otherwise.
\<close>

definition parsed_date :: "(string \<Rightarrow> datetime option) \<Rightarrow> sqlval \<Rightarrow> int option" where
  "parsed_date fromisoformat v =
     (case v of
        Text s \<Rightarrow> (if s = [] then None else map_option wall (fromisoformat (replace_Z s)))
      | _ \<Rightarrow> None)"

text \<open>
  \<open>AllowedDecision\<close>: status is active, now is not before the start date (if there is
  one), now is not after the expiry date (if there is one), and the payment status is
  neither pending nor overdue.
\<close>

definition AllowedDecision :: "(string \<Rightarrow> datetime option) \<Rightarrow> int \<Rightarrow> row \<Rightarrow> bool" where
  "AllowedDecision fromisoformat now r =
     (row_status r = Text ''active'' \<and>
      (case parsed_date fromisoformat (row_start_date r) of
         None \<Rightarrow> True | Some start \<Rightarrow> start \<le> now) \<and>
      (case parsed_date fromisoformat (row_expiry_date r) of
         None \<Rightarrow> True | Some expiry \<Rightarrow> now \<le> expiry) \<and>
      row_payment_status r \<noteq> Text ''pending'' \<and> row_payment_status r \<noteq> Text ''overdue'')"

text \<open>The snapshot of a record that the member map keeps.\<close>

definition snapshot :: "row \<Rightarrow> member_info" where
  "snapshot r =
     \<lparr>info_id = row_id r, info_name = row_name r, info_status = row_status r,
      info_start_date = row_start_date r, info_expiry_date = row_expiry_date r,
      info_payment_status = row_payment_status r\<rparr>"

text \<open>
  The reason reported for a denied identifier, by priority: inactive, then the payment
  status, then expired.
\<close>

definition denied_reason :: "member_info \<Rightarrow> string" where
  "denied_reason i =
     (if info_status i \<noteq> Text ''active'' then ''inactive''
      else if info_payment_status i = Text ''pending'' then ''payment_pending''
      else if info_payment_status i = Text ''overdue'' then ''payment_overdue''
      else ''expired'')"

text \<open>The attendance report of a scan.\<close>

definition report ::
  "string \<Rightarrow> (string \<rightharpoonup> member_info) \<Rightarrow> bool \<Rightarrow> string \<Rightarrow> int option \<Rightarrow> int \<Rightarrow> payload"
where
  "report uid members allowed reason ts now =
     \<lparr>att_biometricId = uid,
      att_memberId = (case members uid of None \<Rightarrow> Null | Some i \<Rightarrow> info_id i),
      att_memberName =
        (case members uid of None \<Rightarrow> Text (''User '' @ uid) | Some i \<Rightarrow> info_name i),
      att_allowed = allowed, att_reason = reason,
      att_timestamp = (case ts of Some t \<Rightarrow> t | None \<Rightarrow> now)\<rparr>"

text \<open>Projections of a list of actions.\<close>

fun posts :: "action list \<Rightarrow> payload list" where
  "posts [] = []"
| "posts (HttpPost pl # tr) = pl # posts tr"
| "posts (a # tr) = posts tr"

fun sleeps :: "action list \<Rightarrow> int list" where
  "sleeps [] = []"
| "sleeps (TimeSleep d # tr) = d # sleeps tr"
| "sleeps (a # tr) = sleeps tr"

fun set_user_calls :: "action list \<Rightarrow> set_user_call list" where
  "set_user_calls [] = []"
| "set_user_calls (ZkSetUser c # tr) = c # set_user_calls tr"
| "set_user_calls (a # tr) = set_user_calls tr"

fun warnings :: "action list \<Rightarrow> string list" where
  "warnings [] = []"
| "warnings (PrintWarning m # tr) = m # warnings tr"
| "warnings (a # tr) = warnings tr"

text \<open>
  The group assignment pushed for an identifier enrolled on the terminal, and the
  assignments expected for a list of identifiers: one for each identifier that has a
  terminal user, in the order of the list.
\<close>

definition group_call :: "string \<Rightarrow> string \<Rightarrow> device_user \<Rightarrow> set_user_call" where
  "group_call group_id uid user =
     \<lparr>su_uid = du_uid user, su_name = du_name user, su_privilege = USER_DEFAULT,
      su_password = du_password user, su_group_id = group_id, su_user_id = uid,
      su_card = 0\<rparr>"

definition expected_calls ::
  "string \<Rightarrow> (string \<rightharpoonup> device_user) \<Rightarrow> string list \<Rightarrow> set_user_call list"
where
  "expected_calls group_id user_dict uids =
     List.map_filter (\<lambda>uid. map_option (group_call group_id uid) (user_dict uid)) uids"

text \<open>The messages of the assignments that fail among the first \<open>n\<close> calls.\<close>

definition caught_failures :: "(nat \<Rightarrow> exn option) \<Rightarrow> nat \<Rightarrow> nat \<Rightarrow> string list" where
  "caught_failures set_user_result k n =
     List.map_filter (\<lambda>j. map_option str_exn (set_user_result j)) [k..<k + n]"

text \<open>The same for the member list of the bridge, read up to its first malformed element.\<close>

fun well_formed_prefix :: "member_json list \<Rightarrow> member_entry list" where
  "well_formed_prefix [] = []"
| "well_formed_prefix (NotAnObject type_name # ms) = []"
| "well_formed_prefix (MemberObject m # ms) = m # well_formed_prefix ms"

definition entry_call :: "(string \<rightharpoonup> device_user) \<Rightarrow> member_entry \<Rightarrow> set_user_call option" where
  "entry_call user_dict m =
     (if entry_biometric_id m = [] then None
      else map_option
             (group_call (if json_truthy (entry_allowed m) then ''1'' else ''0'')
                (entry_biometric_id m))
             (user_dict (entry_biometric_id m)))"

text \<open>
  A member as the caller of the bridge lists it: an identifier, under the key
  \<^verbatim>\<open>biometricId\<close> or under the key \<^verbatim>\<open>biometric_id\<close>, and the flag \<^verbatim>\<open>allowed\<close>; the
  object of the parsed list that carries it; the group assignment expected for it (none
  when the identifier is empty or has no terminal user); and the results expected for a
  list of members, one for each assignment in order: success with the flag, or failure
  with the message of the exception.
\<close>

record listed_member =
  lm_camel_key :: bool
  lm_id :: string
  lm_allowed :: bool

definition member_object :: "listed_member \<Rightarrow> member_json" where
  "member_object m =
     MemberObject
       (if lm_camel_key m then
          \<lparr>me_biometricId = Some (JStr (lm_id m)), me_biometric_id = None,
           me_allowed = Some (JBool (lm_allowed m))\<rparr>
        else
          \<lparr>me_biometricId = None, me_biometric_id = Some (JStr (lm_id m)),
           me_allowed = Some (JBool (lm_allowed m))\<rparr>)"

definition listed_call :: "(string \<rightharpoonup> device_user) \<Rightarrow> listed_member \<Rightarrow> set_user_call option" where
  "listed_call user_dict m =
     (if lm_id m = [] then None
      else map_option (group_call (if lm_allowed m then ''1'' else ''0'') (lm_id m))
             (user_dict (lm_id m)))"

fun listed_results ::
  "(string \<rightharpoonup> device_user) \<Rightarrow> (nat \<Rightarrow> exn option) \<Rightarrow> nat \<Rightarrow> listed_member list
     \<Rightarrow> sync_item list"
where
  "listed_results user_dict set_user_result k [] = []"
| "listed_results user_dict set_user_result k (m # ms) =
     (if lm_id m = [] \<or> user_dict (lm_id m) = None then
        listed_results user_dict set_user_result k ms
      else
        (case set_user_result k of
           None \<Rightarrow> SyncSet (lm_id m) (JBool (lm_allowed m))
         | Some e \<Rightarrow> SyncFailed (lm_id m) (str_exn e)) #
        listed_results user_dict set_user_result (Suc k) ms)"

text \<open>The back-off delay after \<open>k\<close> failures in a row: 2, 4, 8, 16, 32, 60, 60, ...\<close>

definition backoff :: "nat \<Rightarrow> int" where
  "backoff k = min (2 * 2 ^ k) 60"

text \<open>A pass in which the connection raises.\<close>

definition connect_fails :: "session \<Rightarrow> bool" where
  "connect_fails s = (case s_connect s of Some (Raises e) \<Rightarrow> True | _ \<Rightarrow> False)"

definition bridge_connect_fails :: "bridge_session \<Rightarrow> bool" where
  "bridge_connect_fails s = (case b_connect s of Some (Raises e) \<Rightarrow> True | _ \<Rightarrow> False)"

section \<open>Example inputs\<close>

text \<open>
  A parser that knows two dates, and a table of six records: an active member inside the
  date window, a member with an overdue payment whose identifier is padded with blanks,
  a soft-deleted record, a record whose identifier is only blanks, a record without
  identifier, and an inactive member with a numeric identifier and a start date that
  does not parse.
\<close>

definition example_fromisoformat :: "string \<Rightarrow> datetime option" where
  "example_fromisoformat s =
     (if s = ''2024-01-01'' then Some (DateTime 100 None)
      else if s = ''2030-01-01T00:00:00+00:00'' then Some (DateTime 900 (Some 0))
      else None)"

definition example_row :: "sqlval \<Rightarrow> string \<Rightarrow> sqlval \<Rightarrow> sqlval \<Rightarrow> string \<Rightarrow> sqlval \<Rightarrow> row" where
  "example_row bid st start expiry pay deleted =
     \<lparr>row_id = Integer 1, row_name = Text ''Member'', row_biometric_id = bid,
      row_status = Text st, row_start_date = start, row_expiry_date = expiry,
      row_payment_status = Text pay, row_deleted_at = deleted\<rparr>"

definition example_table :: "row list" where
  "example_table =
     [example_row (Text ''1001'') ''active'' (Text ''2024-01-01'')
        (Text ''2030-01-01T00:00:00Z'') ''paid'' Null,
      example_row (Text '' 1002 '') ''active'' Null Null ''overdue'' Null,
      example_row (Text ''1003'') ''active'' Null Null ''paid'' (Text ''2024-05-05''),
      example_row (Text ''   '') ''active'' Null Null ''paid'' Null,
      example_row Null ''active'' Null Null ''paid'' Null,
      example_row (Integer 1004) ''inactive'' (Text ''soon'') Null ''paid'' Null]"

definition example_members :: "string \<rightharpoonup> member_info" where
  "example_members =
     [''1001'' \<mapsto> snapshot (example_table ! 0), ''1002'' \<mapsto> snapshot (example_table ! 1)]"

text \<open>
  A supervisor with the first member allowed and the second denied, scans of a member at
  a given time, two users enrolled on the terminal, and passes of the loop: the
  connection is made or not, at a given reading of the clock, and the live capture ends
  in a given way.
\<close>

definition example_params :: params where
  "example_params =
     \<lparr>p_fromisoformat = example_fromisoformat, p_str_datetime = str_int,
      p_UNLOCK_SECS = 3, p_first = (\<lambda>xs. 0)\<rparr>"

definition example_state :: main_state where
  "example_state =
     \<lparr>seen_events = [], reconnect_delay = 2, device_configured = True, last_db_refresh = 0,
      allowed_users = [''1001''], denied_users = [''1002''], member_map = example_members\<rparr>"

definition example_event :: "string \<Rightarrow> int \<Rightarrow> int \<Rightarrow> exn option \<Rightarrow> event" where
  "example_event uid t now unlock =
     \<lparr>ev_attendance = Some \<lparr>user_id = uid, timestamp = Some t\<rparr>, ev_now = now,
      ev_unlock = unlock\<rparr>"

definition example_users :: "device_user list" where
  "example_users =
     [\<lparr>du_uid = 1, du_name = ''Ann'', du_password = [], du_user_id = ''1001''\<rparr>,
      \<lparr>du_uid = 2, du_name = ''Bob'', du_password = [], du_user_id = ''1002''\<rparr>]"

definition timed_out :: "signal option" where
  "timed_out = Some (Raises (ZKNetworkError ''timed out''))"

definition example_session :: "signal option \<Rightarrow> int \<Rightarrow> signal option \<Rightarrow> session" where
  "example_session connect clock live_end =
     \<lparr>s_connect = connect, s_clock = clock, s_store = Members example_table,
      s_query_now = 500, s_clock_after = clock + 1, s_disable = None,
      s_get_users = Inr example_users, s_set_user = (\<lambda>k. None), s_enable = None,
      s_events = [example_event ''1001'' 5 777 None], s_live_end = live_end,
      s_disconnect = None\<rparr>"

definition example_bridge_params :: bridge_params where
  "example_bridge_params =
     \<lparr>b_str_datetime = str_int, b_isoformat = str_int, b_first = (\<lambda>xs. 0)\<rparr>"

definition example_bridge_event :: bridge_event where
  "example_bridge_event =
     \<lparr>be_attendance = Some \<lparr>user_id = ''1001'', timestamp = Some 5\<rparr>, be_now = 777\<rparr>"

definition example_bridge_session :: "signal option \<Rightarrow> signal option \<Rightarrow> bridge_session" where
  "example_bridge_session connect live_end =
     \<lparr>b_connect = connect, b_disable = None, b_enable = None,
      b_events = [example_bridge_event], b_live_end = live_end, b_disconnect = None\<rparr>"

text \<open>
  A run in which the store is read at start-up, and a pass 301 seconds later that finds
  no database file.
\<close>

definition example_start :: main_state where
  "example_start = initial_state example_params 0 500 (Members example_table)"

definition example_no_db_session :: session where
  "example_no_db_session = (example_session None 301000000 timed_out)\<lparr>s_store := NoDbFile\<rparr>"

text \<open>
  A table for the date conditions, read at clock 500: a member whose expiry date (with a
  \<^verbatim>\<open>Z\<close>) has passed, a member whose start date lies ahead, a member whose start date
  does not parse, and a member whose identifier is a no-break space.
\<close>

definition example_dated_table :: "row list" where
  "example_dated_table =
     [example_row (Text ''2001'') ''active'' Null (Text ''2024-01-01T00:00:00Z'') ''paid'' Null,
      example_row (Text ''2002'') ''active'' (Text ''2030-01-01T00:00:00+00:00'') Null ''paid'' Null,
      example_row (Text ''2003'') ''active'' (Text ''soon'') Null ''paid'' Null,
      example_row (Text [CHR 0xA0]) ''active'' Null Null ''paid'' Null]"

definition example_dated_fromisoformat :: "string \<Rightarrow> datetime option" where
  "example_dated_fromisoformat s =
     (if s = ''2024-01-01T00:00:00+00:00'' then Some (DateTime 100 (Some 0))
      else if s = ''2030-01-01T00:00:00+00:00'' then Some (DateTime 900 (Some 0))
      else None)"

text \<open>
  Two records whose identifiers are equal after trimming, the first active and the
  second inactive; and a soft-deleted record followed by a live record with the same
  identifier.
\<close>

definition example_shared_table :: "row list" where
  "example_shared_table =
     [example_row (Text ''1001'') ''active'' Null Null ''paid'' Null,
      example_row (Text '' 1001'') ''inactive'' Null Null ''paid'' Null]"

definition example_deleted_table :: "row list" where
  "example_deleted_table =
     [example_row (Text ''1001'') ''active'' Null Null ''paid'' (Text ''2024-05-05''),
      example_row (Text ''1001'') ''active'' Null Null ''paid'' Null]"

text \<open>Three members listed for the bridge; the second is not enrolled on the terminal.\<close>

definition example_listed :: "listed_member list" where
  "example_listed =
     [\<lparr>lm_camel_key = True, lm_id = ''1001'', lm_allowed = True\<rparr>,
      \<lparr>lm_camel_key = True, lm_id = ''1005'', lm_allowed = True\<rparr>,
      \<lparr>lm_camel_key = False, lm_id = ''1002'', lm_allowed = False\<rparr>]"

definition first_call_fails :: "nat \<Rightarrow> exn option" where
  "first_call_fails k = (if k = 0 then Some (ZKErrorResponse ''busy'') else None)"

section \<open>The record-store reader\<close>

lemmas example_defs = example_table_def example_row_def example_fromisoformat_def
  qualifies_def soft_deleted_def AllowedDecision_def parsed_date_def record_key_def
  strip_def isspace_def str_int_def

lemma strip_Nil: "strip [] = []"
  by (simp add: strip_def)

text \<open>The two date tests of the loop, in terms of \<open>parsed_date\<close>.\<close>

lemma start_ok_eq:
  "(if truthy v then
      (case v of
         Text s \<Rightarrow>
           (case f (replace_Z s) of
              Some d \<Rightarrow>
                (if tzinfo d \<noteq> None then wall (replace_tzinfo_None d) \<le> now
                 else wall d \<le> now)
            | None \<Rightarrow> True)
       | _ \<Rightarrow> True)
    else True) =
   (case parsed_date f v of None \<Rightarrow> True | Some start \<Rightarrow> start \<le> now)"
  by (cases v) (auto simp: parsed_date_def replace_tzinfo_None_def split: option.splits)

lemma end_ok_eq:
  "(if truthy v then
      (case v of
         Text s \<Rightarrow>
           (case f (replace_Z s) of
              Some d \<Rightarrow>
                (if tzinfo d \<noteq> None then now \<le> wall (replace_tzinfo_None d)
                 else now \<le> wall d)
            | None \<Rightarrow> True)
       | _ \<Rightarrow> True)
    else True) =
   (case parsed_date f v of None \<Rightarrow> True | Some e \<Rightarrow> now \<le> e)"
  by (cases v) (auto simp: parsed_date_def replace_tzinfo_None_def split: option.splits)

text \<open>What the loop does with one row: skip it, or file it on one of the two lists.\<close>

lemma members_loop_skip:
  "record_key r = [] \<Longrightarrow>
   members_loop f now (r # rows) (A, D, M) = members_loop f now rows (A, D, M)"
  by (simp add: record_key_def)

lemma members_loop_allowed:
  "record_key r \<noteq> [] \<Longrightarrow> AllowedDecision f now r \<Longrightarrow>
   members_loop f now (r # rows) (A, D, M) =
   members_loop f now rows (A @ [record_key r], D, M(record_key r \<mapsto> snapshot r))"
  unfolding members_loop.simps Let_def start_ok_eq end_ok_eq
  by (simp add: record_key_def AllowedDecision_def snapshot_def)

lemma members_loop_denied:
  "record_key r \<noteq> [] \<Longrightarrow> \<not> AllowedDecision f now r \<Longrightarrow>
   members_loop f now (r # rows) (A, D, M) =
   members_loop f now rows (A, D @ [record_key r], M(record_key r \<mapsto> snapshot r))"
  unfolding members_loop.simps Let_def start_ok_eq end_ok_eq
  by (auto simp add: record_key_def AllowedDecision_def snapshot_def)

lemma members_loop_char:
  "members_loop f now rows (A, D, M) =
     (A @ map record_key
            (filter (AllowedDecision f now) (filter (\<lambda>r. record_key r \<noteq> []) rows)),
      D @ map record_key
            (filter (\<lambda>r. \<not> AllowedDecision f now r) (filter (\<lambda>r. record_key r \<noteq> []) rows)),
      foldl (\<lambda>m r. m(record_key r \<mapsto> snapshot r)) M (filter (\<lambda>r. record_key r \<noteq> []) rows))"
proof (induction rows arbitrary: A D M)
  case Nil
  show ?case by simp
next
  case (Cons r rows)
  show ?case
  proof (cases "record_key r = []")
    case True
    show ?thesis unfolding members_loop_skip[OF True] Cons.IH
      using True by (simp del: fun_upd_apply)
  next
    case False
    show ?thesis
    proof (cases "AllowedDecision f now r")
      case True
      show ?thesis unfolding members_loop_allowed[OF False True] Cons.IH
        using False True by (simp del: fun_upd_apply)
    next
      case dec: False
      show ?thesis unfolding members_loop_denied[OF False dec] Cons.IH
        using False dec by (simp del: fun_upd_apply)
    qed
  qed
qed

lemma qualifies_iff: "qualifies r \<longleftrightarrow> sql_where r \<and> record_key r \<noteq> []"
  by (auto simp: qualifies_def sql_where_def record_key_def soft_deleted_def strip_Nil)

lemma filter_qualifies:
  "filter (\<lambda>r. record_key r \<noteq> []) (filter sql_where rows) = filter qualifies rows"
  by (induction rows) (auto simp: qualifies_iff)

lemma foldl_snapshots_None:
  "(foldl (\<lambda>m r. m(record_key r \<mapsto> snapshot r)) M rows k = None) =
   (M k = None \<and> k \<notin> record_key ` set rows)"
  by (induction rows arbitrary: M) auto

text \<open>The result of the routine on a readable store, in closed form.\<close>

lemma get_members_char:
  "get_members_from_db f now (Members table) =
     ((map record_key (filter (AllowedDecision f now) (filter qualifies table)),
       map record_key (filter (\<lambda>r. \<not> AllowedDecision f now r) (filter qualifies table)),
       foldl (\<lambda>m r. m(record_key r \<mapsto> snapshot r)) Map.empty (filter qualifies table)),
      [DatabaseQuery
         (length (filter (AllowedDecision f now) (filter qualifies table)))
         (length (filter (\<lambda>r. \<not> AllowedDecision f now r) (filter qualifies table)))
         (length (remdups
            (map record_key (filter (AllowedDecision f now) (filter qualifies table)) @
             map record_key
               (filter (\<lambda>r. \<not> AllowedDecision f now r) (filter qualifies table)))))])"
proof -
  have loop: "members_loop f now (filter sql_where table) ([], [], Map.empty) =
     (map record_key (filter (AllowedDecision f now) (filter qualifies table)),
      map record_key (filter (\<lambda>r. \<not> AllowedDecision f now r) (filter qualifies table)),
      foldl (\<lambda>m r. m(record_key r \<mapsto> snapshot r)) Map.empty (filter qualifies table))"
    unfolding members_loop_char filter_qualifies by (simp only: append_Nil)
  show ?thesis
    unfolding get_members_from_db_def store.case Let_def loop prod.case length_map ..
qed

lemma example_allowed:
  "map record_key
     (filter (AllowedDecision example_fromisoformat 500) (filter qualifies example_table)) =
   [''1001'']"
  by (simp add: example_defs)

lemma example_denied:
  "map record_key
     (filter (\<lambda>r. \<not> AllowedDecision example_fromisoformat 500 r)
        (filter qualifies example_table)) =
   [''1002'', ''1004'']"
  by (simp add: example_defs)

text \<open>
  Claim C8. When the database file is missing, or when the query raises, the routine
  returns the empty allowed list, the empty denied list and the empty member map, and
  prints one warning; it returns a value in both cases, so nothing is raised to the
  caller.
\<close>

theorem get_members_from_db_fails_softly:
  "get_members_from_db f now NoDbFile = (([], [], Map.empty), [DatabaseNotFound]) \<and>
   get_members_from_db f now (QueryRaises e) = (([], [], Map.empty), [DatabaseError e])"
  by (simp add: get_members_from_db_def)

theorem get_members_from_db_fails_softly_witness:
  "get_members_from_db example_fromisoformat 500 NoDbFile =
     (([], [], Map.empty), [DatabaseNotFound]) \<and>
   get_members_from_db example_fromisoformat 500 (QueryRaises ''no such table: members'') =
     (([], [], Map.empty), [DatabaseError ''no such table: members''])"
  using get_members_from_db_fails_softly
          [of example_fromisoformat 500 "''no such table: members''"]
  by simp

lemmas dated_defs = example_dated_table_def example_dated_fromisoformat_def example_row_def
  qualifies_def soft_deleted_def AllowedDecision_def parsed_date_def record_key_def
  strip_def isspace_def

lemmas shared_defs = example_shared_table_def example_deleted_table_def example_row_def
  example_fromisoformat_def qualifies_def soft_deleted_def AllowedDecision_def
  parsed_date_def record_key_def strip_def isspace_def

lemma dated_allowed:
  "map record_key
     (filter (AllowedDecision example_dated_fromisoformat 500)
        (filter qualifies example_dated_table)) =
   [''2003'']"
  by (simp add: dated_defs)

lemma dated_denied:
  "map record_key
     (filter (\<lambda>r. \<not> AllowedDecision example_dated_fromisoformat 500 r)
        (filter qualifies example_dated_table)) =
   [''2001'', ''2002'']"
  by (simp add: dated_defs)

lemma shared_classification:
  "fst (get_members_from_db example_fromisoformat 500 (Members example_shared_table)) =
     ([''1001''], [''1001''], [''1001'' \<mapsto> snapshot (example_shared_table ! 1)])"
  unfolding get_members_char by (simp add: shared_defs)

lemma deleted_classification:
  "fst (get_members_from_db example_fromisoformat 500 (Members example_deleted_table)) =
     ([''1001''], [], [''1001'' \<mapsto> snapshot (example_deleted_table ! 1)])"
  unfolding get_members_char by (simp add: shared_defs)

text \<open>
  Claim C1. On a readable store, the allowed list is made of the identifiers of exactly
  the qualifying records for which \<open>AllowedDecision\<close> holds, in the order of the table,
  and the denied list of the identifiers of the other qualifying records: status is
  active, now is not before the start date and not after the expiry date, where a date
  that is absent or does not parse sets no condition, and the payment status is neither
  pending nor overdue. Hence an identifier is in the allowed list if and only if some
  qualifying record that carries it (after trimming) satisfies \<open>AllowedDecision\<close>, and
  in the denied list if and only if some qualifying record that carries it does not.
  When no two qualifying records share an identifier, the identifier of a qualifying
  record is in the allowed list if and only if \<open>AllowedDecision\<close> holds for the record,
  and in the denied list if and only if it does not.
\<close>

theorem allowed_iff_AllowedDecision:
  assumes "get_members_from_db f now (Members table) = ((A, D, M), printed)"
  shows "A = map record_key (filter (AllowedDecision f now) (filter qualifies table)) \<and>
         D = map record_key
               (filter (\<lambda>r. \<not> AllowedDecision f now r) (filter qualifies table)) \<and>
         (k \<in> set A \<longleftrightarrow>
            (\<exists>r \<in> set table. qualifies r \<and> record_key r = k \<and> AllowedDecision f now r)) \<and>
         (k \<in> set D \<longleftrightarrow>
            (\<exists>r \<in> set table. qualifies r \<and> record_key r = k \<and> \<not> AllowedDecision f now r)) \<and>
         (distinct (map record_key (filter qualifies table)) \<longrightarrow>
            (\<forall>r \<in> set (filter qualifies table).
               (record_key r \<in> set A \<longleftrightarrow> AllowedDecision f now r) \<and>
               (record_key r \<in> set D \<longleftrightarrow> \<not> AllowedDecision f now r)))"
proof -
  let ?Q = "filter qualifies table"
  have A: "A = map record_key (filter (AllowedDecision f now) ?Q)"
    and D: "D = map record_key (filter (\<lambda>r. \<not> AllowedDecision f now r) ?Q)"
    using assms unfolding get_members_char by simp_all
  have kA: "k \<in> set A \<longleftrightarrow>
      (\<exists>r \<in> set table. qualifies r \<and> record_key r = k \<and> AllowedDecision f now r)"
    unfolding A by auto
  have kD: "k \<in> set D \<longleftrightarrow>
      (\<exists>r \<in> set table. qualifies r \<and> record_key r = k \<and> \<not> AllowedDecision f now r)"
    unfolding D by auto
  have "(record_key r \<in> set A \<longleftrightarrow> AllowedDecision f now r) \<and>
        (record_key r \<in> set D \<longleftrightarrow> \<not> AllowedDecision f now r)"
    if dist: "distinct (map record_key ?Q)" and r: "r \<in> set ?Q" for r
  proof -
    have inj: "inj_on record_key (set ?Q)"
      using dist by (simp add: distinct_map)
    have eq: "r' = r" if "r' \<in> set ?Q" "record_key r' = record_key r" for r'
      using inj r that by (auto dest: inj_onD)
    show ?thesis
      unfolding A D using r eq by auto
  qed
  with A D kA kD show ?thesis by blast
qed

theorem allowed_iff_AllowedDecision_witness:
  "fst (fst (get_members_from_db example_dated_fromisoformat 500
       (Members example_dated_table))) = [''2003''] \<and>
   fst (snd (fst (get_members_from_db example_dated_fromisoformat 500
       (Members example_dated_table)))) = [''2001'', ''2002''] \<and>
   distinct (map record_key (filter qualifies example_dated_table)) \<and>
   record_key (example_dated_table ! 0) = ''2001'' \<and>
   parsed_date example_dated_fromisoformat (row_expiry_date (example_dated_table ! 0)) =
     Some 100 \<and>
   \<not> AllowedDecision example_dated_fromisoformat 500 (example_dated_table ! 0) \<and>
   record_key (example_dated_table ! 1) = ''2002'' \<and>
   parsed_date example_dated_fromisoformat (row_start_date (example_dated_table ! 1)) =
     Some 900 \<and>
   \<not> AllowedDecision example_dated_fromisoformat 500 (example_dated_table ! 1) \<and>
   record_key (example_dated_table ! 2) = ''2003'' \<and>
   row_start_date (example_dated_table ! 2) = Text ''soon'' \<and>
   parsed_date example_dated_fromisoformat (row_start_date (example_dated_table ! 2)) =
     None \<and>
   AllowedDecision example_dated_fromisoformat 500 (example_dated_table ! 2) \<and>
   fst (fst (get_members_from_db example_fromisoformat 500 (Members example_table))) =
     [''1001''] \<and>
   fst (snd (fst (get_members_from_db example_fromisoformat 500 (Members example_table)))) =
     [''1002'', ''1004'']"
proof -
  obtain A D M printed where
    eq: "get_members_from_db example_dated_fromisoformat 500 (Members example_dated_table) =
           ((A, D, M), printed)"
    by (metis prod.exhaust)
  have d: "distinct (map record_key (filter qualifies example_dated_table))"
    by (simp add: dated_defs)
  have m: "example_dated_table ! 0 \<in> set (filter qualifies example_dated_table)"
    "example_dated_table ! 1 \<in> set (filter qualifies example_dated_table)"
    "example_dated_table ! 2 \<in> set (filter qualifies example_dated_table)"
    by (simp_all add: dated_defs)
  have k: "record_key (example_dated_table ! 0) = ''2001''"
    "record_key (example_dated_table ! 1) = ''2002''"
    "record_key (example_dated_table ! 2) = ''2003''"
    by (simp_all add: dated_defs)
  have p: "parsed_date example_dated_fromisoformat
             (row_expiry_date (example_dated_table ! 0)) = Some 100"
    "parsed_date example_dated_fromisoformat
             (row_start_date (example_dated_table ! 1)) = Some 900"
    "row_start_date (example_dated_table ! 2) = Text ''soon''"
    "parsed_date example_dated_fromisoformat
             (row_start_date (example_dated_table ! 2)) = None"
    by (simp_all add: dated_defs)
  from allowed_iff_AllowedDecision[OF eq]
  have A: "A = [''2003'']" and D: "D = [''2001'', ''2002'']"
    and r: "\<forall>r \<in> set (filter qualifies example_dated_table).
               (record_key r \<in> set A \<longleftrightarrow> AllowedDecision example_dated_fromisoformat 500 r) \<and>
               (record_key r \<in> set D \<longleftrightarrow>
                  \<not> AllowedDecision example_dated_fromisoformat 500 r)"
    using d unfolding dated_allowed dated_denied by blast+
  from r m k A D have a: "\<not> AllowedDecision example_dated_fromisoformat 500 (example_dated_table ! 0)"
    "\<not> AllowedDecision example_dated_fromisoformat 500 (example_dated_table ! 1)"
    "AllowedDecision example_dated_fromisoformat 500 (example_dated_table ! 2)"
    by auto
  obtain A' D' M' printed' where
    eq': "get_members_from_db example_fromisoformat 500 (Members example_table) =
           ((A', D', M'), printed')"
    by (metis prod.exhaust)
  from allowed_iff_AllowedDecision[OF eq']
  have A': "A' = [''1001'']" and D': "D' = [''1002'', ''1004'']"
    unfolding example_allowed example_denied by blast+
  from a A D A' D' d k p eq eq' show ?thesis by simp
qed

text \<open>
  Claim C1 as it is worded, for every record and its identifier, fails when two records
  read from the store share an identifier after trimming. Here the second record
  qualifies, its status is inactive, so \<open>AllowedDecision\<close> does not hold for it, and its
  identifier is on the allowed list (and on the denied list), because the first record
  carries the same identifier and is active.
\<close>

theorem shared_identifier_on_both_lists:
  "qualifies (example_shared_table ! 0) \<and>
   qualifies (example_shared_table ! 1) \<and>
   record_key (example_shared_table ! 0) = ''1001'' \<and>
   record_key (example_shared_table ! 1) = ''1001'' \<and>
   row_status (example_shared_table ! 1) = Text ''inactive'' \<and>
   \<not> AllowedDecision example_fromisoformat 500 (example_shared_table ! 1) \<and>
   fst (fst (get_members_from_db example_fromisoformat 500 (Members example_shared_table))) =
     [''1001''] \<and>
   fst (snd (fst
     (get_members_from_db example_fromisoformat 500 (Members example_shared_table)))) =
     [''1001''] \<and>
   record_key (example_shared_table ! 1) \<in> set (fst (fst
     (get_members_from_db example_fromisoformat 500 (Members example_shared_table))))"
  unfolding shared_classification by (simp add: shared_defs)

text \<open>
  Claim C5. Records that do not qualify (the biometric identifier is null, or empty
  after trimming, or the record is soft-deleted) contribute nothing: the routine returns
  the same lists, the same member map and the same printed line when they are removed
  from the table. An identifier is on one of the lists, and has an entry in the member
  map, if and only if some qualifying record carries it (after trimming); so an
  identifier that only records of the three kinds carry is on neither list and has no
  entry in the member map. In particular the empty identifier never is and never has.
\<close>

theorem unqualified_records_are_left_out:
  assumes "get_members_from_db f now (Members table) = ((A, D, M), printed)"
  shows "get_members_from_db f now (Members (filter qualifies table)) = ((A, D, M), printed) \<and>
         ((\<forall>r \<in> set table. record_key r = k \<longrightarrow> \<not> qualifies r) \<longrightarrow>
            k \<notin> set A \<and> k \<notin> set D \<and> M k = None) \<and>
         (k \<in> set A \<union> set D \<longleftrightarrow> (\<exists>r \<in> set table. qualifies r \<and> record_key r = k)) \<and>
         (M k \<noteq> None \<longleftrightarrow> (\<exists>r \<in> set table. qualifies r \<and> record_key r = k)) \<and>
         [] \<notin> set A \<and> [] \<notin> set D \<and> M [] = None"
proof -
  let ?Q = "filter qualifies table"
  have idem: "filter qualifies (filter qualifies table) = filter qualifies table"
    by simp
  have "get_members_from_db f now (Members ?Q) = get_members_from_db f now (Members table)"
    unfolding get_members_char idem ..
  with assms have same: "get_members_from_db f now (Members ?Q) = ((A, D, M), printed)"
    by simp
  have A: "A = map record_key (filter (AllowedDecision f now) ?Q)"
    and D: "D = map record_key (filter (\<lambda>r. \<not> AllowedDecision f now r) ?Q)"
    and M: "M = foldl (\<lambda>m r. m(record_key r \<mapsto> snapshot r)) Map.empty ?Q"
    using assms unfolding get_members_char by simp_all
  have lists: "k \<in> set A \<union> set D \<longleftrightarrow> (\<exists>r \<in> set table. qualifies r \<and> record_key r = k)"
    for k
    unfolding A D by auto
  have map: "M k \<noteq> None \<longleftrightarrow> (\<exists>r \<in> set table. qualifies r \<and> record_key r = k)" for k
    unfolding M foldl_snapshots_None by auto
  have absent: "k \<notin> set A \<and> k \<notin> set D \<and> M k = None"
    if "\<forall>r \<in> set table. record_key r = k \<longrightarrow> \<not> qualifies r" for k
    using that lists[of k] map[of k] by auto
  have "\<forall>r \<in> set table. record_key r = [] \<longrightarrow> \<not> qualifies r"
    by (simp add: qualifies_iff)
  from absent[OF this] absent same lists map show ?thesis by blast
qed

theorem unqualified_records_are_left_out_witness:
  "\<not> qualifies (example_table ! 2) \<and> record_key (example_table ! 2) = ''1003'' \<and>
   ''1003'' \<notin> set (fst (fst
      (get_members_from_db example_fromisoformat 500 (Members example_table)))) \<and>
   ''1003'' \<notin> set (fst (snd (fst
      (get_members_from_db example_fromisoformat 500 (Members example_table))))) \<and>
   snd (snd (fst (get_members_from_db example_fromisoformat 500 (Members example_table))))
     ''1003'' = None \<and>
   get_members_from_db example_fromisoformat 500 (Members (filter qualifies example_table)) =
   get_members_from_db example_fromisoformat 500 (Members example_table) \<and>
   filter qualifies example_table = [example_table ! 0, example_table ! 1, example_table ! 5] \<and>
   row_biometric_id (example_dated_table ! 3) = Text [CHR 0xA0] \<and>
   record_key (example_dated_table ! 3) = [] \<and>
   \<not> qualifies (example_dated_table ! 3) \<and>
   filter qualifies example_dated_table =
     [example_dated_table ! 0, example_dated_table ! 1, example_dated_table ! 2] \<and>
   get_members_from_db example_dated_fromisoformat 500
     (Members [example_dated_table ! 0, example_dated_table ! 1, example_dated_table ! 2]) =
   get_members_from_db example_dated_fromisoformat 500 (Members example_dated_table)"
proof -
  obtain A D M printed where
    eq: "get_members_from_db example_fromisoformat 500 (Members example_table) =
           ((A, D, M), printed)"
    by (metis prod.exhaust)
  have h: "\<forall>r \<in> set example_table. record_key r = ''1003'' \<longrightarrow> \<not> qualifies r"
    by (simp add: example_defs)
  have r: "\<not> qualifies (example_table ! 2)" "record_key (example_table ! 2) = ''1003''"
    "filter qualifies example_table = [example_table ! 0, example_table ! 1, example_table ! 5]"
    by (simp_all add: example_defs)
  obtain A' D' M' printed' where
    eq': "get_members_from_db example_dated_fromisoformat 500 (Members example_dated_table) =
           ((A', D', M'), printed')"
    by (metis prod.exhaust)
  have r': "row_biometric_id (example_dated_table ! 3) = Text [CHR 0xA0]"
    "record_key (example_dated_table ! 3) = []"
    "\<not> qualifies (example_dated_table ! 3)"
    by (simp_all add: dated_defs)
  have q': "filter qualifies example_dated_table =
     [example_dated_table ! 0, example_dated_table ! 1, example_dated_table ! 2]"
    by (simp add: dated_defs)
  from unqualified_records_are_left_out[OF eq', of "[]"] eq'
  have s': "get_members_from_db example_dated_fromisoformat 500
     (Members [example_dated_table ! 0, example_dated_table ! 1, example_dated_table ! 2]) =
   get_members_from_db example_dated_fromisoformat 500 (Members example_dated_table)"
    unfolding q' by simp
  from unqualified_records_are_left_out[OF eq, of "''1003''"] h eq
  have s: "''1003'' \<notin> set A" "''1003'' \<notin> set D" "M ''1003'' = None"
    "get_members_from_db example_fromisoformat 500 (Members (filter qualifies example_table)) =
     get_members_from_db example_fromisoformat 500 (Members example_table)"
    by simp_all
  from s eq have "''1003'' \<notin> set (fst (fst
      (get_members_from_db example_fromisoformat 500 (Members example_table))))"
    "''1003'' \<notin> set (fst (snd (fst
      (get_members_from_db example_fromisoformat 500 (Members example_table)))))"
    "snd (snd (fst (get_members_from_db example_fromisoformat 500 (Members example_table))))
       ''1003'' = None"
    by simp_all
  with s(4) s' r r' q' show ?thesis by blast
qed

text \<open>
  Claim C5 as it is worded, for every such record and its identifier, fails when a
  record that qualifies carries the same identifier. Here the first record is
  soft-deleted and the second, with the same identifier, is not: the identifier of the
  soft-deleted record is on the allowed list and has an entry in the member map.
\<close>

theorem soft_deleted_identifier_is_listed:
  "soft_deleted (example_deleted_table ! 0) \<and>
   \<not> qualifies (example_deleted_table ! 0) \<and>
   record_key (example_deleted_table ! 0) = ''1001'' \<and>
   fst (fst (get_members_from_db example_fromisoformat 500 (Members example_deleted_table))) =
     [''1001''] \<and>
   record_key (example_deleted_table ! 0) \<in> set (fst (fst
     (get_members_from_db example_fromisoformat 500 (Members example_deleted_table)))) \<and>
   snd (snd (fst
     (get_members_from_db example_fromisoformat 500 (Members example_deleted_table))))
     (record_key (example_deleted_table ! 0)) = Some (snapshot (example_deleted_table ! 1))"
  unfolding deleted_classification by (simp add: shared_defs)

section \<open>The scan event processor\<close>

lemma process_scan_allowed:
  "uid \<in> set A \<Longrightarrow>
   process_scan secs r now uid ts A D M =
     [ZkUnlock secs,
      HttpPost (report uid M (r = None) (if r = None then ''allowed'' else ''relay_error'')
        ts now)]"
  by (cases r) (simp_all add: process_scan_def send_attendance_event_def report_def Let_def)

text \<open>
  Claim C3. For a scan of an identifier on the allowed list, \<open>process_scan\<close> calls the
  relay unlock once and posts one attendance report, and nothing else: the report says
  allowed with reason \<open>allowed\<close> when the unlock returns, and not allowed with reason
  \<open>relay_error\<close> when it raises. Either way the function returns its two actions to the
  caller: the exception of the unlock stops at the handler.
\<close>

theorem allowed_scan_unlocks_once:
  assumes "uid \<in> set A"
  shows "process_scan secs None now uid ts A D M =
           [ZkUnlock secs, HttpPost (report uid M True ''allowed'' ts now)] \<and>
         process_scan secs (Some e) now uid ts A D M =
           [ZkUnlock secs, HttpPost (report uid M False ''relay_error'' ts now)] \<and>
         length (filter is_unlock (process_scan secs r now uid ts A D M)) = 1 \<and>
         length (posts (process_scan secs r now uid ts A D M)) = 1"
  using assms by (simp add: process_scan_allowed)

theorem allowed_scan_unlocks_once_witness:
  "process_scan 3 None 777 ''1001'' (Some 5) [''1001''] [''1002''] example_members =
     [ZkUnlock 3, HttpPost (report ''1001'' example_members True ''allowed'' (Some 5) 777)] \<and>
   process_scan 3 (Some (ZKErrorResponse ''relay'')) 777 ''1001'' (Some 5) [''1001''] [''1002'']
       example_members =
     [ZkUnlock 3, HttpPost (report ''1001'' example_members False ''relay_error'' (Some 5) 777)]"
proof -
  have h: "''1001'' \<in> set [''1001'']" by simp
  from allowed_scan_unlocks_once
         [where uid = "''1001''" and A = "[''1001'']" and D = "[''1002'']"
            and M = example_members and secs = 3 and now = 777 and ts = "Some 5"
            and e = "ZKErrorResponse ''relay''", OF h]
  show ?thesis by simp
qed

lemma payment_reason:
  "info_status i = Text ''active'' \<Longrightarrow>
   (if info_payment_status i \<in> set [Text ''pending'', Text ''overdue'']
    then ''payment_'' @ py_str (info_payment_status i) else ''expired'') = denied_reason i"
  by (auto simp: denied_reason_def)

lemma process_scan_denied:
  assumes "uid \<notin> set A" and "uid \<in> set D" and "M uid = Some i"
  shows "process_scan secs r now uid ts A D M =
           [HttpPost (report uid M False (denied_reason i) ts now)]"
proof (cases "info_status i = Text ''active''")
  case True
  show ?thesis
    using assms True payment_reason[OF True]
    by (simp add: process_scan_def send_attendance_event_def report_def Let_def)
next
  case False
  then show ?thesis
    using assms
    by (simp add: process_scan_def send_attendance_event_def report_def Let_def
        denied_reason_def)
qed

text \<open>
  In a classification read from a store whose qualifying records carry distinct
  identifiers, a denied identifier is not allowed and has a snapshot.
\<close>

lemma classification_denied:
  assumes "get_members_from_db f now (Members table) = ((A, D, M), printed)"
    and "distinct (map record_key (filter qualifies table))"
    and "uid \<in> set D"
  shows "uid \<notin> set A \<and> (\<exists>i. M uid = Some i)"
proof -
  let ?Q = "filter qualifies table"
  have A: "A = map record_key (filter (AllowedDecision f now) ?Q)"
    and D: "D = map record_key (filter (\<lambda>r. \<not> AllowedDecision f now r) ?Q)"
    and M: "M = foldl (\<lambda>m r. m(record_key r \<mapsto> snapshot r)) Map.empty ?Q"
    using assms(1) unfolding get_members_char by simp_all
  from assms(3) obtain r where r: "r \<in> set ?Q" "\<not> AllowedDecision f now r" "record_key r = uid"
    unfolding D by auto
  have inj: "inj_on record_key (set ?Q)"
    using assms(2) by (simp add: distinct_map)
  have "uid \<notin> set A"
  proof
    assume "uid \<in> set A"
    then obtain r' where r': "r' \<in> set ?Q" "AllowedDecision f now r'" "record_key r' = uid"
      unfolding A by auto
    with r inj have "r' = r" by (auto dest: inj_onD)
    with r r' show False by simp
  qed
  moreover have "M uid \<noteq> None"
    unfolding M foldl_snapshots_None using r by auto
  ultimately show ?thesis by auto
qed

text \<open>
  Claim C2. For a scan of an identifier that is on the denied list and not on the
  allowed list, with a snapshot in the member map, \<open>process_scan\<close> posts one report,
  not allowed, whose reason is \<open>denied_reason\<close> of the snapshot: \<open>inactive\<close> when the
  status is not active, whatever the payment status and the dates; else
  \<open>payment_pending\<close> or \<open>payment_overdue\<close>; else \<open>expired\<close>. The relay is not called.
  Every denied identifier of a classification read from a store with distinct
  identifiers is off the allowed list and has a snapshot.
\<close>

theorem denied_scan_reports_reason:
  "(uid \<notin> set A \<and> uid \<in> set D \<and> M uid = Some i \<longrightarrow>
      process_scan secs r now uid ts A D M =
        [HttpPost (report uid M False (denied_reason i) ts now)] \<and>
      filter is_unlock (process_scan secs r now uid ts A D M) = []) \<and>
   (get_members_from_db f now' (Members table) = ((A, D, M), printed) \<and>
    distinct (map record_key (filter qualifies table)) \<and> uid \<in> set D \<longrightarrow>
      uid \<notin> set A \<and> (\<exists>i. M uid = Some i))"
proof (intro conjI impI)
  assume a: "uid \<notin> set A \<and> uid \<in> set D \<and> M uid = Some i"
  then have p: "process_scan secs r now uid ts A D M =
                  [HttpPost (report uid M False (denied_reason i) ts now)]"
    by (simp add: process_scan_denied)
  then show "process_scan secs r now uid ts A D M =
               [HttpPost (report uid M False (denied_reason i) ts now)]" .
  from p show "filter is_unlock (process_scan secs r now uid ts A D M) = []" by simp
next
  assume a: "get_members_from_db f now' (Members table) = ((A, D, M), printed) \<and>
    distinct (map record_key (filter qualifies table)) \<and> uid \<in> set D"
  then show "uid \<notin> set A" "\<exists>i. M uid = Some i"
    using classification_denied[of f now' table A D M printed uid] by simp_all
qed

theorem denied_scan_reports_reason_witness:
  "process_scan 3 None 777 ''1002'' (Some 5) [''1001''] [''1002''] example_members =
     [HttpPost (report ''1002'' example_members False ''payment_overdue'' (Some 5) 777)] \<and>
   denied_reason (snapshot (example_table ! 5)) = ''inactive'' \<and>
   distinct (map record_key (filter qualifies example_table)) \<and>
   ''1002'' \<in> set (fst (snd (fst
      (get_members_from_db example_fromisoformat 500 (Members example_table))))) \<and>
   ''1002'' \<notin> set (fst (fst
      (get_members_from_db example_fromisoformat 500 (Members example_table))))"
proof -
  have h: "''1002'' \<notin> set [''1001'']" "''1002'' \<in> set [''1002'']"
    "example_members ''1002'' = Some (snapshot (example_table ! 1))"
    by (simp_all add: example_members_def)
  have r: "denied_reason (snapshot (example_table ! 1)) = ''payment_overdue''"
    "denied_reason (snapshot (example_table ! 5)) = ''inactive''"
    by (simp_all add: denied_reason_def snapshot_def example_table_def example_row_def)
  from denied_scan_reports_reason
         [where uid = "''1002''" and A = "[''1001'']" and D = "[''1002'']"
            and M = example_members and i = "snapshot (example_table ! 1)"
            and secs = 3 and r = None and now = 777 and ts = "Some 5"] h r
  have 1: "process_scan 3 None 777 ''1002'' (Some 5) [''1001''] [''1002''] example_members =
     [HttpPost (report ''1002'' example_members False ''payment_overdue'' (Some 5) 777)]"
    by simp
  obtain A D M printed where
    eq: "get_members_from_db example_fromisoformat 500 (Members example_table) =
           ((A, D, M), printed)"
    by (metis prod.exhaust)
  have d: "distinct (map record_key (filter qualifies example_table))"
    by (simp add: example_defs)
  have D: "D = [''1002'', ''1004'']"
    using eq unfolding get_members_char example_denied by simp
  from denied_scan_reports_reason
         [where uid = "''1002''" and A = A and D = D and M = M and f = example_fromisoformat
            and now' = 500 and table = example_table and printed = printed] eq d D
  have 2: "''1002'' \<notin> set A" by simp
  from 1 2 r d D eq show ?thesis by simp
qed

text \<open>
  Claim C2 as it is worded, for every identifier of the denied list, fails for an
  identifier that is also on the allowed list. The classification of two records with
  the same identifier, one active and one inactive, has the identifier on both lists and
  keeps the snapshot of the inactive record; the scan takes the allowed branch, which is
  tested first: the relay is unlocked and the report says allowed.
\<close>

theorem scan_of_identifier_on_both_lists_unlocks:
  "fst (get_members_from_db example_fromisoformat 500 (Members example_shared_table)) =
     ([''1001''], [''1001''], [''1001'' \<mapsto> snapshot (example_shared_table ! 1)]) \<and>
   info_status (snapshot (example_shared_table ! 1)) = Text ''inactive'' \<and>
   denied_reason (snapshot (example_shared_table ! 1)) = ''inactive'' \<and>
   process_scan 3 None 777 ''1001'' (Some 5) [''1001''] [''1001'']
       [''1001'' \<mapsto> snapshot (example_shared_table ! 1)] =
     [ZkUnlock 3,
      HttpPost \<lparr>att_biometricId = ''1001'', att_memberId = Integer 1,
                att_memberName = Text ''Member'', att_allowed = True,
                att_reason = ''allowed'', att_timestamp = 5\<rparr>]"
  unfolding shared_classification
  by (simp add: process_scan_def send_attendance_event_def Let_def snapshot_def
      denied_reason_def example_shared_table_def example_row_def)

section \<open>De-duplication\<close>

lemma handle_event_seen:
  "ev_attendance ev = Some a \<Longrightarrow>
   event_key (p_str_datetime p) (user_id a) (timestamp a) \<in> set (seen_events st) \<Longrightarrow>
   handle_event p st ev = (st, [])"
  by (simp add: handle_event_def dedup_def Let_def)

lemma bridge_handle_event_seen:
  "be_attendance ev = Some a \<Longrightarrow>
   event_key (b_str_datetime bp) (user_id a) (timestamp a) \<in> set seen \<Longrightarrow>
   bridge_handle_event bp seen ev = (seen, [])"
  by (simp add: bridge_handle_event_def dedup_def Let_def)

lemma live_capture_loop_append:
  "live_capture_loop p st (xs @ ys) =
     (let (st', tr) = live_capture_loop p st xs;
          (st'', tr') = live_capture_loop p st' ys
      in (st'', tr @ tr'))"
  by (induction xs arbitrary: st) (auto simp: Let_def split: prod.splits)

lemma bridge_live_loop_append:
  "bridge_live_loop bp seen (xs @ ys) =
     (let (seen', tr) = bridge_live_loop bp seen xs;
          (seen'', tr') = bridge_live_loop bp seen' ys
      in (seen'', tr @ tr'))"
  by (induction xs arbitrary: seen) (auto simp: Let_def split: prod.splits)

lemma dedup_fresh:
  "key \<notin> set seen \<Longrightarrow> length seen < 500 \<Longrightarrow> dedup first seen key = Some (seen @ [key])"
  by (simp add: dedup_def Let_def)

text \<open>Below the capacity, an event delivered again right away finds its key in the set.\<close>

lemma handle_event_twice:
  assumes "length (seen_events st) < 500" and "ev_attendance ev' = ev_attendance ev"
  shows "handle_event p (fst (handle_event p st ev)) ev' = (fst (handle_event p st ev), [])"
proof (cases "ev_attendance ev")
  case None
  with assms show ?thesis by (simp add: handle_event_def)
next
  case (Some a)
  show ?thesis
  proof (cases "user_id a = []")
    case True
    with Some assms show ?thesis by (simp add: handle_event_def)
  next
    case False
    let ?k = "event_key (p_str_datetime p) (user_id a) (timestamp a)"
    show ?thesis
    proof (cases "?k \<in> set (seen_events st)")
      case True
      from handle_event_seen[OF Some True] have "handle_event p st ev = (st, [])" .
      moreover from assms Some have "ev_attendance ev' = Some a" by simp
      ultimately show ?thesis using handle_event_seen[OF _ True] by simp
    next
      case fresh: False
      from dedup_fresh[OF fresh assms(1)]
      have "handle_event p st ev =
              (st\<lparr>seen_events := seen_events st @ [?k]\<rparr>,
               process_scan (p_UNLOCK_SECS p) (ev_unlock ev) (ev_now ev) (user_id a)
                 (timestamp a) (allowed_users st) (denied_users st) (member_map st))"
        using Some False by (simp add: handle_event_def Let_def)
      moreover from assms Some have "ev_attendance ev' = Some a" by simp
      ultimately show ?thesis
        using handle_event_seen[of ev' a p "st\<lparr>seen_events := seen_events st @ [?k]\<rparr>"]
        by simp
    qed
  qed
qed

lemma example_live:
  "live_capture_loop example_params example_state [example_event ''1001'' 5 777 None] =
     (example_state\<lparr>seen_events := [''1001-5'']\<rparr>,
      [ZkUnlock 3, HttpPost (report ''1001'' example_members True ''allowed'' (Some 5) 777)])"
  by (simp add: handle_event_def dedup_def event_key_def example_params_def example_state_def
      example_event_def str_int_def process_scan_def send_attendance_event_def report_def
      Let_def)

lemma example_bridge_live:
  "bridge_live_loop example_bridge_params [] [example_bridge_event] =
     ([''1001-5''], [PrintJson (ScanLine ''1001'' ''5'')])"
  by (simp add: bridge_handle_event_def dedup_def event_key_def example_bridge_params_def
      example_bridge_event_def str_int_def Let_def)

text \<open>
  Claim C4. When the live loop has run over some events and the next event carries a key
  that the set of seen events contains at that moment, the loop does nothing for it: no
  unlock, no report (no output line in the bridge), and the state is unchanged, since
  \<open>process_scan\<close> is not called. In particular, while the set holds fewer than 500 keys,
  an event delivered twice in a row is processed once.
\<close>

theorem duplicate_event_is_dropped:
  "(live_capture_loop p st evs = (st', tr) \<and> ev_attendance ev = Some a \<and>
    event_key (p_str_datetime p) (user_id a) (timestamp a) \<in> set (seen_events st')
      \<longrightarrow> live_capture_loop p st (evs @ [ev]) = (st', tr)) \<and>
   (bridge_live_loop bp seen bevs = (seen', btr) \<and> be_attendance bev = Some a \<and>
    event_key (b_str_datetime bp) (user_id a) (timestamp a) \<in> set seen'
      \<longrightarrow> bridge_live_loop bp seen (bevs @ [bev]) = (seen', btr)) \<and>
   (length (seen_events st) < 500 \<and> ev_attendance ev2 = ev_attendance ev1
      \<longrightarrow> live_capture_loop p st [ev1, ev2] = live_capture_loop p st [ev1])"
proof (intro conjI impI)
  assume "live_capture_loop p st evs = (st', tr) \<and> ev_attendance ev = Some a \<and>
    event_key (p_str_datetime p) (user_id a) (timestamp a) \<in> set (seen_events st')"
  then show "live_capture_loop p st (evs @ [ev]) = (st', tr)"
    by (simp add: live_capture_loop_append handle_event_seen)
next
  assume "bridge_live_loop bp seen bevs = (seen', btr) \<and> be_attendance bev = Some a \<and>
    event_key (b_str_datetime bp) (user_id a) (timestamp a) \<in> set seen'"
  then show "bridge_live_loop bp seen (bevs @ [bev]) = (seen', btr)"
    by (simp add: bridge_live_loop_append bridge_handle_event_seen)
next
  assume "length (seen_events st) < 500 \<and> ev_attendance ev2 = ev_attendance ev1"
  then have "handle_event p (fst (handle_event p st ev1)) ev2 =
               (fst (handle_event p st ev1), [])"
    by (simp add: handle_event_twice)
  then show "live_capture_loop p st [ev1, ev2] = live_capture_loop p st [ev1]"
    by (cases "handle_event p st ev1") (simp add: Let_def)
qed

theorem duplicate_event_is_dropped_witness:
  "live_capture_loop example_params example_state
     ([example_event ''1001'' 5 777 None] @ [example_event ''1001'' 5 778 None]) =
     (example_state\<lparr>seen_events := [''1001-5'']\<rparr>,
      [ZkUnlock 3, HttpPost (report ''1001'' example_members True ''allowed'' (Some 5) 777)]) \<and>
   bridge_live_loop example_bridge_params [] ([example_bridge_event] @ [example_bridge_event]) =
     ([''1001-5''], [PrintJson (ScanLine ''1001'' ''5'')]) \<and>
   live_capture_loop example_params example_state
     [example_event ''1001'' 5 777 None, example_event ''1001'' 5 778 None] =
   live_capture_loop example_params example_state [example_event ''1001'' 5 777 None]"
proof -
  let ?a = "\<lparr>user_id = ''1001'', timestamp = Some 5\<rparr>"
  have k: "event_key (p_str_datetime example_params) (user_id ?a) (timestamp ?a) = ''1001-5''"
    "event_key (b_str_datetime example_bridge_params) (user_id ?a) (timestamp ?a) = ''1001-5''"
    by (simp_all add: event_key_def example_params_def example_bridge_params_def str_int_def)
  have a: "ev_attendance (example_event ''1001'' 5 778 None) = Some ?a"
    "ev_attendance (example_event ''1001'' 5 778 None) =
     ev_attendance (example_event ''1001'' 5 777 None)"
    "be_attendance example_bridge_event = Some ?a"
    "length (seen_events example_state) < 500"
    by (simp_all add: example_event_def example_bridge_event_def example_state_def)
  from duplicate_event_is_dropped
        [of example_params example_state "[example_event ''1001'' 5 777 None]"
        "example_state\<lparr>seen_events := [''1001-5'']\<rparr>"
        "[ZkUnlock 3, HttpPost (report ''1001'' example_members True ''allowed'' (Some 5) 777)]"
        "example_event ''1001'' 5 778 None" ?a
        example_bridge_params "[]" "[example_bridge_event]" "[''1001-5'']"
        "[PrintJson (ScanLine ''1001'' ''5'')]" example_bridge_event
        "example_event ''1001'' 5 778 None" "example_event ''1001'' 5 777 None"]
    example_live example_bridge_live k a
  show ?thesis by simp
qed

section \<open>The supervisor\<close>

subsection \<open>Which actions each part performs\<close>

lemma set_group_loop_actions:
  "set_group_loop g ud res k ids = (tr, k') \<Longrightarrow> a \<in> set tr \<Longrightarrow>
   (\<exists>c. a = ZkSetUser c) \<or> (\<exists>m. a = PrintWarning m) \<or> (\<exists>u h. a = PrintSettingUser u h)"
  by (induction ids arbitrary: k tr k') (auto split: option.splits prod.splits)

lemma configure_actions:
  "a \<in> set (configure_device_access_groups gu res A D) \<Longrightarrow>
   a = ZkGetUsers \<or> (\<exists>c. a = ZkSetUser c) \<or> (\<exists>m. a = PrintWarning m) \<or>
   (\<exists>u h. a = PrintSettingUser u h) \<or> (\<exists>m. a = PrintFailedToConfigure m)"
  by (cases gu)
     (auto simp: configure_device_access_groups_def Let_def split: prod.splits
        dest: set_group_loop_actions[OF sym])

lemma sleeps_none: "\<forall>a \<in> set tr. \<forall>d. a \<noteq> TimeSleep d \<Longrightarrow> sleeps tr = []"
  by (induction tr rule: sleeps.induct) auto

lemma sleeps_append: "sleeps (xs @ ys) = sleeps xs @ sleeps ys"
  by (induction xs rule: sleeps.induct) auto

text \<open>The access-group routine asks the terminal for its users once and reads no store.\<close>

lemma configure_count_get_users:
  "count_list (configure_device_access_groups gu res A D) ZkGetUsers = 1"
proof (cases gu)
  case (Inl e)
  then show ?thesis by (simp add: configure_device_access_groups_def)
next
  case (Inr users)
  obtain tr1 k where l1: "set_group_loop ''1'' (user_dict_of users) res 0 A = (tr1, k)"
    by (metis prod.exhaust)
  obtain tr2 k' where l2: "set_group_loop ''0'' (user_dict_of users) res k D = (tr2, k')"
    by (metis prod.exhaust)
  have "ZkGetUsers \<notin> set tr1" "ZkGetUsers \<notin> set tr2"
    using set_group_loop_actions[OF l1] set_group_loop_actions[OF l2] by auto
  then have "count_list tr1 ZkGetUsers = 0" "count_list tr2 ZkGetUsers = 0"
    by (simp_all add: count_list_0_iff)
  with Inr l1 l2 show ?thesis
    by (simp add: configure_device_access_groups_def)
qed

lemma configure_count_load:
  "count_list (configure_device_access_groups gu res A D) GetMembersFromDb = 0"
  using configure_actions[of GetMembersFromDb gu res A D]
  by (auto simp: count_list_0_iff)

lemma sleeps_configure: "sleeps (configure_device_access_groups gu res A D) = []"
proof -
  have "\<forall>a \<in> set (configure_device_access_groups gu res A D). \<forall>d. a \<noteq> TimeSleep d"
    using configure_actions[of _ gu res A D] by auto
  then show ?thesis
    by (rule sleeps_none)
qed

lemma process_scan_actions:
  "a \<in> set (process_scan secs r now uid ts A D M) \<Longrightarrow>
   (\<exists>n. a = ZkUnlock n) \<or> (\<exists>pl. a = HttpPost pl)"
  by (auto simp: process_scan_def send_attendance_event_def Let_def
      split: if_splits option.splits)

lemma handle_event_actions:
  "handle_event p st ev = (st', tr) \<Longrightarrow> a \<in> set tr \<Longrightarrow>
   (\<exists>n. a = ZkUnlock n) \<or> (\<exists>pl. a = HttpPost pl)"
  by (auto simp: handle_event_def Let_def split: option.splits if_splits
      dest: process_scan_actions)

lemma handle_event_state:
  "handle_event p st ev = (st', tr) \<Longrightarrow> \<exists>seen. st' = st\<lparr>seen_events := seen\<rparr>"
  by (auto simp: handle_event_def Let_def split: option.splits if_splits
      intro: exI[of _ "seen_events st"])

lemma live_capture_loop_actions:
  "live_capture_loop p st evs = (st', tr) \<Longrightarrow> a \<in> set tr \<Longrightarrow>
   (\<exists>n. a = ZkUnlock n) \<or> (\<exists>pl. a = HttpPost pl)"
proof (induction evs arbitrary: st st' tr)
  case Nil
  then show ?case by simp
next
  case (Cons ev evs)
  obtain st1 tr1 where h: "handle_event p st ev = (st1, tr1)" by (metis prod.exhaust)
  obtain st2 tr2 where l: "live_capture_loop p st1 evs = (st2, tr2)" by (metis prod.exhaust)
  from Cons.prems h l have "tr = tr1 @ tr2" by simp
  with Cons.prems(2) have "a \<in> set tr1 \<or> a \<in> set tr2" by simp
  then show ?case
    using handle_event_actions[OF h] Cons.IH[OF l] by blast
qed

text \<open>The live loop changes no variable of the supervisor but the set of seen events.\<close>

lemma live_capture_loop_state:
  "live_capture_loop p st evs = (st', tr) \<Longrightarrow> \<exists>seen. st' = st\<lparr>seen_events := seen\<rparr>"
proof (induction evs arbitrary: st st' tr)
  case Nil
  then show ?case by (auto intro: exI[of _ "seen_events st"])
next
  case (Cons ev evs)
  obtain st1 tr1 where h: "handle_event p st ev = (st1, tr1)" by (metis prod.exhaust)
  obtain st2 tr2 where l: "live_capture_loop p st1 evs = (st2, tr2)" by (metis prod.exhaust)
  from Cons.prems h l have "st' = st2" by simp
  moreover from handle_event_state[OF h] obtain s1 where "st1 = st\<lparr>seen_events := s1\<rparr>" ..
  moreover from Cons.IH[OF l] obtain s2 where "st2 = st1\<lparr>seen_events := s2\<rparr>" ..
  ultimately show ?case by auto
qed

lemma live_count:
  assumes "live_capture_loop p st evs = (st', tr)"
  shows "count_list tr GetMembersFromDb = 0" "count_list tr ZkGetUsers = 0" "sleeps tr = []"
proof -
  have n: "GetMembersFromDb \<notin> set tr" "ZkGetUsers \<notin> set tr"
    using live_capture_loop_actions[OF assms] by auto
  then show "count_list tr GetMembersFromDb = 0" "count_list tr ZkGetUsers = 0"
    by (simp_all add: count_list_0_iff)
  have "\<forall>a \<in> set tr. \<forall>d. a \<noteq> TimeSleep d"
    using live_capture_loop_actions[OF assms] by blast
  then show "sleeps tr = []"
    by (rule sleeps_none)
qed

subsection \<open>The setup phase and one pass of the loop\<close>

lemma setup_phase_due:
  assumes "refresh_due (s_clock s) (last_db_refresh st)"
    and "get_members_from_db (p_fromisoformat p) (s_query_now s) (s_store s) =
           ((A', D', M'), printed)"
  shows "setup_phase p st s =
    (st\<lparr>allowed_users := A', denied_users := D', member_map := M',
        device_configured := True, last_db_refresh := s_clock_after s\<rparr>,
     GetMembersFromDb # ZkDisableDevice #
       configure_device_access_groups (s_get_users s) (s_set_user s) A' D' @ [ZkEnableDevice])"
  using assms by (simp add: setup_phase_def refresh_members_def)

lemma setup_phase_not_due:
  assumes "\<not> refresh_due (s_clock s) (last_db_refresh st)"
  shows "setup_phase p st s =
    (if device_configured st then (st, [ZkDisableDevice, ZkEnableDevice])
     else (st\<lparr>device_configured := True\<rparr>,
           ZkDisableDevice #
             configure_device_access_groups (s_get_users s) (s_set_user s)
               (allowed_users st) (denied_users st) @ [ZkEnableDevice]))"
  using assms by (simp add: setup_phase_def refresh_members_def)

lemma sleeps_setup_phase: "setup_phase p st s = (st1, tr1) \<Longrightarrow> sleeps tr1 = []"
  by (auto simp: setup_phase_def refresh_members_def Let_def sleeps_append
      sleeps_configure split: prod.splits if_splits)

lemma session_pass_connected:
  assumes "s_connect s = None" and "setup_phase p st s = (st1, tr1)"
    and "live_capture_loop p (st1\<lparr>reconnect_delay := 2\<rparr>) (s_events s) = (st3, tr3)"
  shows "session_pass p st s =
    (case s_live_end s of
       None \<Rightarrow> (st3, ZkConnect # tr1 @ tr3 @ [ZkDisconnect], False)
     | Some KeyboardInterrupt \<Rightarrow> (st3, ZkConnect # tr1 @ tr3 @ [ZkDisconnect], True)
     | Some (Raises e) \<Rightarrow>
         (st3\<lparr>reconnect_delay := next_delay (reconnect_delay st3)\<rparr>,
          ZkConnect # tr1 @ tr3 @ [TimeSleep (reconnect_delay st3), ZkDisconnect], False))"
  using assms by (simp add: session_pass_def)

text \<open>
  In a pass whose connection is made, the setup phase comes right after the connection;
  what follows it reads no store and does not ask for the terminal's users.
\<close>

lemma session_pass_connected_shape:
  assumes "s_connect s = None" and "setup_phase p st s = (st1, tr1)"
    and "session_pass p st s = (st', tr, stop)"
  shows "\<exists>seen d live. st' = st1\<lparr>seen_events := seen, reconnect_delay := d\<rparr> \<and>
           tr = ZkConnect # tr1 @ live \<and>
           count_list live GetMembersFromDb = 0 \<and> count_list live ZkGetUsers = 0"
proof -
  obtain st3 tr3 where
    l: "live_capture_loop p (st1\<lparr>reconnect_delay := 2\<rparr>) (s_events s) = (st3, tr3)"
    by (metis prod.exhaust)
  from live_capture_loop_state[OF l] obtain seen where
    st3: "st3 = st1\<lparr>reconnect_delay := 2, seen_events := seen\<rparr>" by auto
  note c = live_count(1,2)[OF l]
  show ?thesis
  proof (cases "s_live_end s")
    case None
    with session_pass_connected[OF assms(1,2) l] assms(3)
    have "st' = st3" "tr = ZkConnect # tr1 @ (tr3 @ [ZkDisconnect])" by simp_all
    with st3 c show ?thesis by (intro exI[of _ seen] exI[of _ 2]) auto
  next
    case (Some sg)
    show ?thesis
    proof (cases sg)
      case (Raises e)
      with Some session_pass_connected[OF assms(1,2) l] assms(3)
      have "st' = st3\<lparr>reconnect_delay := next_delay (reconnect_delay st3)\<rparr>"
        "tr = ZkConnect # tr1 @ (tr3 @ [TimeSleep (reconnect_delay st3), ZkDisconnect])"
        by simp_all
      with st3 c show ?thesis
        by (intro exI[of _ seen] exI[of _ "next_delay 2"]) auto
    next
      case KeyboardInterrupt
      with Some session_pass_connected[OF assms(1,2) l] assms(3)
      have "st' = st3" "tr = ZkConnect # tr1 @ (tr3 @ [ZkDisconnect])" by simp_all
      with st3 c show ?thesis by (intro exI[of _ seen] exI[of _ 2]) auto
    qed
  qed
qed

lemma session_pass_not_connected:
  assumes "s_connect s \<noteq> None" and "session_pass p st s = (st', tr, stop)"
  shows "device_configured st' = device_configured st \<and>
         last_db_refresh st' = last_db_refresh st \<and>
         count_list tr GetMembersFromDb = 0 \<and> count_list tr ZkGetUsers = 0"
  using assms by (auto simp: session_pass_def split: option.splits signal.splits)

text \<open>
  Claim C6, with the interval counted from the last load whether or not it could read
  the store. \<open>last_db_refresh\<close> is the reading of the clock at the last load of the
  classification: the one at start-up, or the last reload of a setup phase (the load
  routine always returns, so every reload counts). A setup phase is entered by a pass
  whose connection is made. If more than \<open>db_refresh_interval\<close> = 300 seconds have
  passed since \<open>last_db_refresh\<close>, the pass reads the store once and then runs the
  access-group routine once on the new lists, both before the live loop, and the new
  classification and the new \<open>last_db_refresh\<close> are kept. If not, and the terminal has
  been configured before (which holds after any pass that connected), the setup phase
  only disables and enables the terminal: the store is not read, the access-group
  routine is not run, and the classification is unchanged. In the first setup phase of a
  run entered before the interval has passed, the access-group routine runs once without
  a reload. A pass whose connection fails enters no setup phase and changes nothing here.
\<close>

theorem refresh_and_resync_once:
  "(s_connect s = None \<and> refresh_due (s_clock s) (last_db_refresh st) \<and>
    get_members_from_db (p_fromisoformat p) (s_query_now s) (s_store s) =
      ((A', D', M'), printed) \<and>
    session_pass p st s = (st', tr, stop) \<longrightarrow>
      (\<exists>live. tr = ZkConnect # GetMembersFromDb # ZkDisableDevice #
                  configure_device_access_groups (s_get_users s) (s_set_user s) A' D' @
                  ZkEnableDevice # live \<and>
               count_list live GetMembersFromDb = 0 \<and> count_list live ZkGetUsers = 0) \<and>
      count_list tr GetMembersFromDb = 1 \<and> count_list tr ZkGetUsers = 1 \<and>
      allowed_users st' = A' \<and> denied_users st' = D' \<and> member_map st' = M' \<and>
      last_db_refresh st' = s_clock_after s \<and> device_configured st') \<and>
   (s_connect s = None \<and> \<not> refresh_due (s_clock s) (last_db_refresh st) \<and>
    device_configured st \<and> session_pass p st s = (st', tr, stop) \<longrightarrow>
      (\<exists>live. tr = ZkConnect # ZkDisableDevice # ZkEnableDevice # live \<and>
               count_list live GetMembersFromDb = 0 \<and> count_list live ZkGetUsers = 0) \<and>
      count_list tr GetMembersFromDb = 0 \<and> count_list tr ZkGetUsers = 0 \<and>
      allowed_users st' = allowed_users st \<and> denied_users st' = denied_users st \<and>
      member_map st' = member_map st \<and> last_db_refresh st' = last_db_refresh st \<and>
      device_configured st') \<and>
   (s_connect s = None \<and> \<not> refresh_due (s_clock s) (last_db_refresh st) \<and>
    \<not> device_configured st \<and> session_pass p st s = (st', tr, stop) \<longrightarrow>
      count_list tr GetMembersFromDb = 0 \<and> count_list tr ZkGetUsers = 1 \<and>
      last_db_refresh st' = last_db_refresh st \<and> device_configured st') \<and>
   (s_connect s \<noteq> None \<and> session_pass p st s = (st', tr, stop) \<longrightarrow>
      count_list tr GetMembersFromDb = 0 \<and> count_list tr ZkGetUsers = 0 \<and>
      last_db_refresh st' = last_db_refresh st \<and>
      device_configured st' = device_configured st) \<and>
   last_db_refresh (initial_state p clock0 query_now0 store0) = clock0 \<and>
   \<not> device_configured (initial_state p clock0 query_now0 store0)"
proof (intro conjI impI)
  assume a: "s_connect s = None \<and> refresh_due (s_clock s) (last_db_refresh st) \<and>
    get_members_from_db (p_fromisoformat p) (s_query_now s) (s_store s) =
      ((A', D', M'), printed) \<and>
    session_pass p st s = (st', tr, stop)"
  let ?cfg = "configure_device_access_groups (s_get_users s) (s_set_user s) A' D'"
  from a setup_phase_due have
    sp: "setup_phase p st s =
      (st\<lparr>allowed_users := A', denied_users := D', member_map := M',
          device_configured := True, last_db_refresh := s_clock_after s\<rparr>,
       GetMembersFromDb # ZkDisableDevice # ?cfg @ [ZkEnableDevice])"
    by blast
  from session_pass_connected_shape[OF _ sp] a obtain seen d live where
    s: "st' = st\<lparr>allowed_users := A', denied_users := D', member_map := M',
          device_configured := True, last_db_refresh := s_clock_after s,
          seen_events := seen, reconnect_delay := d\<rparr>"
    and t: "tr = ZkConnect # (GetMembersFromDb # ZkDisableDevice # ?cfg @ [ZkEnableDevice]) @ live"
    and c: "count_list live GetMembersFromDb = 0" "count_list live ZkGetUsers = 0"
    by blast
  show "\<exists>live. tr = ZkConnect # GetMembersFromDb # ZkDisableDevice # ?cfg @
                  ZkEnableDevice # live \<and>
          count_list live GetMembersFromDb = 0 \<and> count_list live ZkGetUsers = 0"
    using t c by (intro exI[of _ live]) simp
  show "count_list tr GetMembersFromDb = 1" "count_list tr ZkGetUsers = 1"
    using t c by (simp_all add: configure_count_load configure_count_get_users)
  show "allowed_users st' = A'" "denied_users st' = D'" "member_map st' = M'"
    "last_db_refresh st' = s_clock_after s" "device_configured st'"
    using s by simp_all
next
  assume a: "s_connect s = None \<and> \<not> refresh_due (s_clock s) (last_db_refresh st) \<and>
    device_configured st \<and> session_pass p st s = (st', tr, stop)"
  with setup_phase_not_due have
    sp: "setup_phase p st s = (st, [ZkDisableDevice, ZkEnableDevice])" by simp
  from session_pass_connected_shape[OF _ sp] a obtain seen d live where
    s: "st' = st\<lparr>seen_events := seen, reconnect_delay := d\<rparr>"
    and t: "tr = ZkConnect # [ZkDisableDevice, ZkEnableDevice] @ live"
    and c: "count_list live GetMembersFromDb = 0" "count_list live ZkGetUsers = 0"
    by blast
  show "\<exists>live. tr = ZkConnect # ZkDisableDevice # ZkEnableDevice # live \<and>
          count_list live GetMembersFromDb = 0 \<and> count_list live ZkGetUsers = 0"
    using t c by (intro exI[of _ live]) simp
  show "count_list tr GetMembersFromDb = 0" "count_list tr ZkGetUsers = 0"
    using t c by simp_all
  show "allowed_users st' = allowed_users st" "denied_users st' = denied_users st"
    "member_map st' = member_map st" "last_db_refresh st' = last_db_refresh st"
    "device_configured st'"
    using s a by simp_all
next
  assume a: "s_connect s = None \<and> \<not> refresh_due (s_clock s) (last_db_refresh st) \<and>
    \<not> device_configured st \<and> session_pass p st s = (st', tr, stop)"
  let ?cfg = "configure_device_access_groups (s_get_users s) (s_set_user s)
                (allowed_users st) (denied_users st)"
  from a setup_phase_not_due have
    sp: "setup_phase p st s =
           (st\<lparr>device_configured := True\<rparr>, ZkDisableDevice # ?cfg @ [ZkEnableDevice])"
    by simp
  from session_pass_connected_shape[OF _ sp] a obtain seen d live where
    s: "st' = st\<lparr>device_configured := True, seen_events := seen, reconnect_delay := d\<rparr>"
    and t: "tr = ZkConnect # (ZkDisableDevice # ?cfg @ [ZkEnableDevice]) @ live"
    and c: "count_list live GetMembersFromDb = 0" "count_list live ZkGetUsers = 0"
    by blast
  show "count_list tr GetMembersFromDb = 0" "count_list tr ZkGetUsers = 1"
    using t c by (simp_all add: configure_count_load configure_count_get_users)
  show "last_db_refresh st' = last_db_refresh st" "device_configured st'"
    using s by simp_all
next
  assume a: "s_connect s \<noteq> None \<and> session_pass p st s = (st', tr, stop)"
  then show "count_list tr GetMembersFromDb = 0" "count_list tr ZkGetUsers = 0"
    "last_db_refresh st' = last_db_refresh st" "device_configured st' = device_configured st"
    using session_pass_not_connected[of s p st st' tr stop] by simp_all
next
  show "last_db_refresh (initial_state p clock0 query_now0 store0) = clock0"
    "\<not> device_configured (initial_state p clock0 query_now0 store0)"
    by (simp_all add: initial_state_def split: prod.splits)
qed

theorem refresh_and_resync_once_witness:
  "refresh_due 301000000 (last_db_refresh example_state) \<and>
   count_list (fst (snd (session_pass example_params example_state
       (example_session None 301000000 None)))) GetMembersFromDb = 1 \<and>
   count_list (fst (snd (session_pass example_params example_state
       (example_session None 301000000 None)))) ZkGetUsers = 1 \<and>
   \<not> refresh_due 299000000 (last_db_refresh example_state) \<and>
   count_list (fst (snd (session_pass example_params example_state
       (example_session None 299000000 None)))) GetMembersFromDb = 0 \<and>
   count_list (fst (snd (session_pass example_params example_state
       (example_session None 299000000 None)))) ZkGetUsers = 0 \<and>
   count_list (fst (snd (session_pass example_params
       (example_state\<lparr>device_configured := False\<rparr>)
       (example_session None 299000000 None)))) ZkGetUsers = 1 \<and>
   count_list (fst (snd (session_pass example_params example_state
       (example_session timed_out 301000000 None)))) GetMembersFromDb = 0"
proof -
  let ?late = "example_session None 301000000 None"
  let ?early = "example_session None 299000000 None"
  let ?failed = "example_session timed_out 301000000 None"
  let ?fresh = "example_state\<lparr>device_configured := False\<rparr>"
  have due: "refresh_due 301000000 (last_db_refresh example_state)"
    and not_due: "\<not> refresh_due 299000000 (last_db_refresh example_state)"
    by (simp_all add: refresh_due_def db_refresh_interval_def example_state_def)
  have f: "s_connect ?late = None" "s_clock ?late = 301000000"
    "s_connect ?early = None" "s_clock ?early = 299000000"
    "s_connect ?failed \<noteq> None"
    "device_configured example_state" "\<not> device_configured ?fresh"
    "last_db_refresh ?fresh = last_db_refresh example_state"
    by (simp_all add: example_session_def example_state_def timed_out_def)
  obtain A' D' M' printed where
    g: "get_members_from_db (p_fromisoformat example_params) (s_query_now ?late)
          (s_store ?late) = ((A', D', M'), printed)"
    by (metis prod.exhaust)
  obtain st1 tr1 stop1 where
    p1: "session_pass example_params example_state ?late = (st1, tr1, stop1)"
    by (metis prod_cases3)
  obtain st2 tr2 stop2 where
    p2: "session_pass example_params example_state ?early = (st2, tr2, stop2)"
    by (metis prod_cases3)
  obtain st3 tr3 stop3 where
    p3: "session_pass example_params ?fresh ?early = (st3, tr3, stop3)"
    by (metis prod_cases3)
  obtain st4 tr4 stop4 where
    p4: "session_pass example_params example_state ?failed = (st4, tr4, stop4)"
    by (metis prod_cases3)
  from refresh_and_resync_once
         [of ?late example_state example_params A' D' M' printed st1 tr1 stop1]
    f due g p1
  have 1: "count_list tr1 GetMembersFromDb = 1" "count_list tr1 ZkGetUsers = 1" by simp_all
  from refresh_and_resync_once
         [of ?early example_state example_params A' D' M' printed st2 tr2 stop2]
    f not_due p2
  have 2: "count_list tr2 GetMembersFromDb = 0" "count_list tr2 ZkGetUsers = 0" by simp_all
  from refresh_and_resync_once
         [of ?early ?fresh example_params A' D' M' printed st3 tr3 stop3]
    f not_due p3
  have 3: "count_list tr3 ZkGetUsers = 1" by simp
  from refresh_and_resync_once
         [of ?failed example_state example_params A' D' M' printed st4 tr4 stop4]
    f p4
  have 4: "count_list tr4 GetMembersFromDb = 0" by simp
  from 1 2 3 4 due not_due p1 p2 p3 p4 show ?thesis by simp
qed

text \<open>
  The interval is not counted from the last load that could read the store. In this run
  the store is read at start-up (clock 0). A pass at 301 seconds reloads and finds no
  database file: the classification becomes empty and \<open>last_db_refresh\<close> moves to this
  failed load. A pass at 400 seconds, more than 300 seconds after the last load that
  read the store, does not read the store and does not run the access-group routine.
\<close>

theorem failed_load_restarts_interval:
  "allowed_users example_start = [''1001''] \<and>
   last_db_refresh example_start = 0 \<and>
   s_connect example_no_db_session = None \<and>
   s_store example_no_db_session = NoDbFile \<and>
   s_clock example_no_db_session = 301000000 \<and>
   count_list (fst (snd (session_pass example_params example_start example_no_db_session)))
     GetMembersFromDb = 1 \<and>
   allowed_users (fst (session_pass example_params example_start example_no_db_session)) = [] \<and>
   s_connect (example_session None 400000000 None) = None \<and>
   s_clock (example_session None 400000000 None) = 400000000 \<and>
   refresh_due 400000000 0 \<and>
   count_list (fst (snd (session_pass example_params
       (fst (session_pass example_params example_start example_no_db_session))
       (example_session None 400000000 None)))) GetMembersFromDb = 0 \<and>
   count_list (fst (snd (session_pass example_params
       (fst (session_pass example_params example_start example_no_db_session))
       (example_session None 400000000 None)))) ZkGetUsers = 0"
proof -
  let ?s1 = example_no_db_session
  let ?s2 = "example_session None 400000000 None"
  have "fst (fst (get_members_from_db example_fromisoformat 500 (Members example_table))) =
          [''1001'']"
    unfolding get_members_char example_allowed by (simp only: fst_conv)
  then have a0: "allowed_users example_start = [''1001'']"
    by (auto simp: example_start_def initial_state_def example_params_def split: prod.splits)
  have l0: "last_db_refresh example_start = 0"
    by (simp add: example_start_def initial_state_def split: prod.splits)
  have s1: "s_connect ?s1 = None" "s_store ?s1 = NoDbFile" "s_clock ?s1 = 301000000"
    "s_clock_after ?s1 = 301000001"
    by (simp_all add: example_no_db_session_def example_session_def)
  have s2: "s_connect ?s2 = None" "s_clock ?s2 = 400000000"
    by (simp_all add: example_session_def)
  have due1: "refresh_due (s_clock ?s1) (last_db_refresh example_start)"
    by (simp add: s1 l0 refresh_due_def db_refresh_interval_def)
  have g: "get_members_from_db (p_fromisoformat example_params) (s_query_now ?s1) (s_store ?s1) =
             (([], [], Map.empty), [DatabaseNotFound])"
    by (simp add: s1 get_members_from_db_def)
  let ?st1' = "example_start\<lparr>allowed_users := [], denied_users := [], member_map := Map.empty,
        device_configured := True, last_db_refresh := s_clock_after ?s1\<rparr>"
  let ?tr1' = "GetMembersFromDb # ZkDisableDevice #
       configure_device_access_groups (s_get_users ?s1) (s_set_user ?s1) [] [] @ [ZkEnableDevice]"
  have sp1: "setup_phase example_params example_start ?s1 = (?st1', ?tr1')"
    by (rule setup_phase_due[OF due1 g])
  obtain st1 tr1 stop1 where p1: "session_pass example_params example_start ?s1 = (st1, tr1, stop1)"
    by (metis prod_cases3)
  from session_pass_connected_shape[OF s1(1) sp1 p1] obtain seen d live where
    st1: "st1 = ?st1'\<lparr>seen_events := seen, reconnect_delay := d\<rparr>"
    and tr1: "tr1 = ZkConnect # ?tr1' @ live"
    and c1: "count_list live GetMembersFromDb = 0"
    by blast
  have n1: "count_list tr1 GetMembersFromDb = 1"
    unfolding tr1 using c1 by (simp add: configure_count_load)
  have f1: "allowed_users st1 = []" "device_configured st1" "last_db_refresh st1 = 301000001"
    unfolding st1 by (simp_all add: s1)
  have not_due2: "\<not> refresh_due (s_clock ?s2) (last_db_refresh st1)"
    by (simp add: s2 f1 refresh_due_def db_refresh_interval_def)
  have sp2: "setup_phase example_params st1 ?s2 = (st1, [ZkDisableDevice, ZkEnableDevice])"
    using setup_phase_not_due[OF not_due2] f1 by simp
  obtain st2 tr2 stop2 where p2: "session_pass example_params st1 ?s2 = (st2, tr2, stop2)"
    by (metis prod_cases3)
  from session_pass_connected_shape[OF s2(1) sp2 p2] obtain live2 where
    tr2: "tr2 = ZkConnect # [ZkDisableDevice, ZkEnableDevice] @ live2"
    and c2: "count_list live2 GetMembersFromDb = 0" "count_list live2 ZkGetUsers = 0"
    by blast
  have n2: "count_list tr2 GetMembersFromDb = 0" "count_list tr2 ZkGetUsers = 0"
    unfolding tr2 using c2 by simp_all
  have due: "refresh_due 400000000 0"
    by (simp add: refresh_due_def db_refresh_interval_def)
  from a0 l0 s1 s2 n1 f1 n2 due p1 p2 show ?thesis by simp
qed

subsection \<open>Back-off\<close>

lemma next_delay_backoff: "next_delay (backoff k) = backoff (Suc k)"
proof -
  have "(0::int) < 2 * 2 ^ k" by simp
  then show ?thesis
    unfolding next_delay_def backoff_def by (simp add: min_def)
qed

lemma bridge_delay_backoff: "min (backoff k * 2) max_reconnect_delay = backoff (Suc k)"
  using next_delay_backoff[of k] by (simp add: next_delay_def max_reconnect_delay_def)

lemma backoff_0: "backoff 0 = 2"
  by (simp add: backoff_def)

lemma session_pass_connect_fails:
  "connect_fails s \<Longrightarrow>
   session_pass p st s =
     (st\<lparr>reconnect_delay := next_delay (reconnect_delay st)\<rparr>,
      [ZkConnect, TimeSleep (reconnect_delay st)], False)"
  by (auto simp: connect_fails_def session_pass_def split: option.splits signal.splits)

text \<open>Failures of the connection in a row, from the \<open>k\<close>-th delay on.\<close>

lemma main_loop_failures:
  "\<forall>s \<in> set ss. connect_fails s \<Longrightarrow> reconnect_delay st = backoff k \<Longrightarrow>
   sleeps (snd (main_loop p st ss)) = map backoff [k..<k + length ss] \<and>
   reconnect_delay (fst (main_loop p st ss)) = backoff (k + length ss)"
proof (induction ss arbitrary: st k)
  case Nil
  then show ?case by simp
next
  case (Cons s ss)
  let ?st = "st\<lparr>reconnect_delay := next_delay (reconnect_delay st)\<rparr>"
  from Cons.prems have
    sp: "session_pass p st s = (?st, [ZkConnect, TimeSleep (backoff k)], False)"
    by (simp add: session_pass_connect_fails)
  have d: "reconnect_delay ?st = backoff (Suc k)"
    using Cons.prems(2) by (simp add: next_delay_backoff)
  from Cons.prems(1) have "\<forall>s \<in> set ss. connect_fails s" by simp
  from Cons.IH[OF this d]
  have ih: "sleeps (snd (main_loop p ?st ss)) = map backoff [Suc k..<Suc k + length ss]"
    "reconnect_delay (fst (main_loop p ?st ss)) = backoff (Suc k + length ss)"
    by simp_all
  obtain st2 tr2 where m: "main_loop p ?st ss = (st2, tr2)" by (metis prod.exhaust)
  have res: "main_loop p st (s # ss) = (st2, [ZkConnect, TimeSleep (backoff k)] @ tr2)"
    using sp m by simp
  have u: "[k..<k + length (s # ss)] = k # [Suc k..<k + length (s # ss)]"
    by (rule upt_conv_Cons) simp
  show ?case
    unfolding res u using ih m by simp
qed

lemma bridge_pass_connect_fails:
  "bridge_connect_fails s \<Longrightarrow>
   sleeps (fst (snd (bridge_pass bp ip port ck u (seen, d) s))) = [d] \<and>
   fst (bridge_pass bp ip port ck u (seen, d) s) = (seen, min (d * 2) max_reconnect_delay) \<and>
   \<not> snd (snd (bridge_pass bp ip port ck u (seen, d) s))"
  by (auto simp: bridge_connect_fails_def bridge_pass_def split: option.splits signal.splits)

lemma monitor_loop_failures:
  "\<forall>s \<in> set ss. bridge_connect_fails s \<Longrightarrow>
   sleeps (snd (monitor_loop bp ip port ck u (seen, backoff k) ss)) =
     map backoff [k..<k + length ss] \<and>
   fst (monitor_loop bp ip port ck u (seen, backoff k) ss) = (seen, backoff (k + length ss))"
proof (induction ss arbitrary: k)
  case Nil
  then show ?case by simp
next
  case (Cons s ss)
  from Cons.prems have f: "bridge_connect_fails s"
    and r: "\<forall>s \<in> set ss. bridge_connect_fails s"
    by simp_all
  obtain st1 tr1 stop where
    bp: "bridge_pass bp ip port ck u (seen, backoff k) s = (st1, tr1, stop)"
    by (metis prod_cases3)
  from bridge_pass_connect_fails[OF f, of bp ip port ck u seen "backoff k"] bp
  have 1: "sleeps tr1 = [backoff k]" "st1 = (seen, backoff (Suc k))" "\<not> stop"
    by (simp_all add: bridge_delay_backoff)
  obtain st2 tr2 where
    m: "monitor_loop bp ip port ck u (seen, backoff (Suc k)) ss = (st2, tr2)"
    by (metis prod.exhaust)
  from Cons.IH[OF r, of "Suc k"] m
  have ih: "sleeps tr2 = map backoff [Suc k..<Suc k + length ss]"
    "st2 = (seen, backoff (Suc k + length ss))"
    by simp_all
  have res: "monitor_loop bp ip port ck u (seen, backoff k) (s # ss) = (st2, tr1 @ tr2)"
    using bp 1 m by simp
  have u: "[k..<k + length (s # ss)] = k # [Suc k..<k + length (s # ss)]"
    by (rule upt_conv_Cons) simp
  show ?case
    unfolding res u using ih 1 by (simp add: sleeps_append)
qed

lemma session_pass_live_fails:
  assumes "s_connect s = None" and "s_live_end s = Some (Raises e)"
  shows "sleeps (fst (snd (session_pass p st s))) = [2] \<and>
         reconnect_delay (fst (session_pass p st s)) = 4"
proof -
  obtain st1 tr1 where sp: "setup_phase p st s = (st1, tr1)" by (metis prod.exhaust)
  obtain st3 tr3 where
    l: "live_capture_loop p (st1\<lparr>reconnect_delay := 2\<rparr>) (s_events s) = (st3, tr3)"
    by (metis prod.exhaust)
  from live_capture_loop_state[OF l] have d: "reconnect_delay st3 = 2" by auto
  from session_pass_connected[OF assms(1) sp l] assms(2) d sleeps_setup_phase[OF sp]
    live_count(3)[OF l]
  show ?thesis by (simp add: sleeps_append next_delay_def)
qed

lemma session_pass_live_ends:
  assumes "s_connect s = None" and "\<forall>e. s_live_end s \<noteq> Some (Raises e)"
  shows "sleeps (fst (snd (session_pass p st s))) = [] \<and>
         reconnect_delay (fst (session_pass p st s)) = 2"
proof -
  obtain st1 tr1 where sp: "setup_phase p st s = (st1, tr1)" by (metis prod.exhaust)
  obtain st3 tr3 where
    l: "live_capture_loop p (st1\<lparr>reconnect_delay := 2\<rparr>) (s_events s) = (st3, tr3)"
    by (metis prod.exhaust)
  from live_capture_loop_state[OF l] have d: "reconnect_delay st3 = 2" by auto
  from session_pass_connected[OF assms(1) sp l] assms(2) d sleeps_setup_phase[OF sp]
    live_count(3)[OF l]
  show ?thesis by (auto simp add: sleeps_append split: option.splits signal.splits)
qed

lemma bridge_handle_event_actions:
  "bridge_handle_event bp seen ev = (seen', tr) \<Longrightarrow> a \<in> set tr \<Longrightarrow> \<exists>l. a = PrintJson l"
  by (auto simp: bridge_handle_event_def Let_def split: option.splits if_splits)

lemma bridge_live_loop_actions:
  "bridge_live_loop bp seen evs = (seen', tr) \<Longrightarrow> a \<in> set tr \<Longrightarrow> \<exists>l. a = PrintJson l"
proof (induction evs arbitrary: seen seen' tr)
  case Nil
  then show ?case by simp
next
  case (Cons ev evs)
  obtain s1 tr1 where h: "bridge_handle_event bp seen ev = (s1, tr1)" by (metis prod.exhaust)
  obtain s2 tr2 where l: "bridge_live_loop bp s1 evs = (s2, tr2)" by (metis prod.exhaust)
  from Cons.prems h l have "tr = tr1 @ tr2" by simp
  with Cons.prems(2) have "a \<in> set tr1 \<or> a \<in> set tr2" by simp
  then show ?case
    using bridge_handle_event_actions[OF h] Cons.IH[OF l] by blast
qed

lemma bridge_live_sleeps:
  "bridge_live_loop bp seen evs = (seen', tr) \<Longrightarrow> sleeps tr = []"
  using bridge_live_loop_actions[of bp seen evs seen' tr]
  by (intro sleeps_none) auto

lemma bridge_pass_live_fails:
  assumes "b_connect s = None" and "b_live_end s = Some (Raises e)"
  shows "sleeps (fst (snd (bridge_pass bp ip port ck u (seen, d) s))) = [2] \<and>
         snd (fst (bridge_pass bp ip port ck u (seen, d) s)) = 4"
proof -
  obtain s3 tr3 where l: "bridge_live_loop bp seen (b_events s) = (s3, tr3)"
    by (metis prod.exhaust)
  from bridge_live_sleeps[OF l] assms l show ?thesis
    by (simp add: bridge_pass_def sleeps_append max_reconnect_delay_def split: option.splits)
qed

text \<open>
  Claim C7. When the connection raises, the pass sleeps for the current delay and then
  sets the delay to the minimum of its double and 60. When the connection is made, the
  delay is set to 2 before the live capture starts: if the live capture then raises, the
  pass sleeps 2 seconds and leaves the delay at 4; if it ends otherwise, there is no
  sleep and the delay stays 2. The delay is 2 at start-up. Hence, from a delay of 2,
  connection failures in a row sleep 2, 4, 8, 16, 32, 60, 60, ... seconds (\<open>backoff\<close>).
  The loop of the bridge behaves the same way.
\<close>

theorem reconnect_backoff:
  "(connect_fails s \<longrightarrow>
      session_pass p st s =
        (st\<lparr>reconnect_delay := min (reconnect_delay st * 2) 60\<rparr>,
         [ZkConnect, TimeSleep (reconnect_delay st)], False)) \<and>
   (s_connect s = None \<and> s_live_end s = Some (Raises e) \<longrightarrow>
      sleeps (fst (snd (session_pass p st s))) = [2] \<and>
      reconnect_delay (fst (session_pass p st s)) = 4) \<and>
   (s_connect s = None \<and> (\<forall>e. s_live_end s \<noteq> Some (Raises e)) \<longrightarrow>
      sleeps (fst (snd (session_pass p st s))) = [] \<and>
      reconnect_delay (fst (session_pass p st s)) = 2) \<and>
   reconnect_delay (initial_state p clock0 query_now0 store0) = 2 \<and>
   ((\<forall>s \<in> set ss. connect_fails s) \<and> reconnect_delay st = 2 \<longrightarrow>
      sleeps (snd (main_loop p st ss)) = map backoff [0..<length ss] \<and>
      reconnect_delay (fst (main_loop p st ss)) = backoff (length ss)) \<and>
   ((\<forall>s \<in> set bss. bridge_connect_fails s) \<longrightarrow>
      sleeps (monitor_scans bp ip port ck u bss) = map backoff [0..<length bss]) \<and>
   (bridge_connect_fails bs \<longrightarrow>
      sleeps (fst (snd (bridge_pass bp ip port ck u (seen, d) bs))) = [d] \<and>
      snd (fst (bridge_pass bp ip port ck u (seen, d) bs)) = min (d * 2) 60) \<and>
   (b_connect bs = None \<and> b_live_end bs = Some (Raises e) \<longrightarrow>
      sleeps (fst (snd (bridge_pass bp ip port ck u (seen, d) bs))) = [2] \<and>
      snd (fst (bridge_pass bp ip port ck u (seen, d) bs)) = 4)"
proof (intro conjI impI)
  assume "connect_fails s"
  then show "session_pass p st s =
        (st\<lparr>reconnect_delay := min (reconnect_delay st * 2) 60\<rparr>,
         [ZkConnect, TimeSleep (reconnect_delay st)], False)"
    by (simp add: session_pass_connect_fails next_delay_def)
next
  assume a: "s_connect s = None \<and> s_live_end s = Some (Raises e)"
  then show "sleeps (fst (snd (session_pass p st s))) = [2]"
    "reconnect_delay (fst (session_pass p st s)) = 4"
    using session_pass_live_fails[of s e p st] by simp_all
next
  assume a: "s_connect s = None \<and> (\<forall>e. s_live_end s \<noteq> Some (Raises e))"
  then show "sleeps (fst (snd (session_pass p st s))) = []"
    "reconnect_delay (fst (session_pass p st s)) = 2"
    using session_pass_live_ends[of s p st] by simp_all
next
  show "reconnect_delay (initial_state p clock0 query_now0 store0) = 2"
    by (simp add: initial_state_def split: prod.splits)
next
  assume a: "(\<forall>s \<in> set ss. connect_fails s) \<and> reconnect_delay st = 2"
  then show "sleeps (snd (main_loop p st ss)) = map backoff [0..<length ss]"
    "reconnect_delay (fst (main_loop p st ss)) = backoff (length ss)"
    using main_loop_failures[of ss st 0 p] by (simp_all add: backoff_0)
next
  assume a: "\<forall>s \<in> set bss. bridge_connect_fails s"
  then show "sleeps (monitor_scans bp ip port ck u bss) = map backoff [0..<length bss]"
    using monitor_loop_failures[of bss bp ip port ck u "[]" 0]
    by (simp add: monitor_scans_def backoff_0)
next
  assume a: "bridge_connect_fails bs"
  then show "sleeps (fst (snd (bridge_pass bp ip port ck u (seen, d) bs))) = [d]"
    "snd (fst (bridge_pass bp ip port ck u (seen, d) bs)) = min (d * 2) 60"
    using bridge_pass_connect_fails[of bs bp ip port ck u seen d]
    by (simp_all add: max_reconnect_delay_def)
next
  assume a: "b_connect bs = None \<and> b_live_end bs = Some (Raises e)"
  then show "sleeps (fst (snd (bridge_pass bp ip port ck u (seen, d) bs))) = [2]"
    "snd (fst (bridge_pass bp ip port ck u (seen, d) bs)) = 4"
    using bridge_pass_live_fails[of bs e bp ip port ck u seen d] by simp_all
qed

theorem reconnect_backoff_witness:
  "sleeps (snd (main_loop example_params example_state
      (replicate 7 (example_session timed_out 0 None)))) = [2, 4, 8, 16, 32, 60, 60] \<and>
   reconnect_delay (fst (main_loop example_params example_state
      (replicate 7 (example_session timed_out 0 None)))) = 60 \<and>
   sleeps (monitor_scans example_bridge_params ''192.168.1.81'' 4370 0 3
      (replicate 7 (example_bridge_session timed_out None))) = [2, 4, 8, 16, 32, 60, 60] \<and>
   sleeps (fst (snd (session_pass example_params (example_state\<lparr>reconnect_delay := 32\<rparr>)
      (example_session None 0 timed_out)))) = [2] \<and>
   reconnect_delay (fst (session_pass example_params (example_state\<lparr>reconnect_delay := 32\<rparr>)
      (example_session None 0 timed_out))) = 4 \<and>
   reconnect_delay (fst (session_pass example_params (example_state\<lparr>reconnect_delay := 32\<rparr>)
      (example_session None 0 None))) = 2 \<and>
   session_pass example_params (example_state\<lparr>reconnect_delay := 32\<rparr>)
      (example_session timed_out 0 None) =
     (example_state\<lparr>reconnect_delay := 60\<rparr>, [ZkConnect, TimeSleep 32], False) \<and>
   sleeps (fst (snd (bridge_pass example_bridge_params ''192.168.1.81'' 4370 0 3 ([], 32)
      (example_bridge_session timed_out None)))) = [32] \<and>
   sleeps (fst (snd (bridge_pass example_bridge_params ''192.168.1.81'' 4370 0 3 ([], 32)
      (example_bridge_session None timed_out)))) = [2]"
proof -
  let ?fail = "example_session timed_out 0 None"
  let ?bfail = "example_bridge_session timed_out None"
  let ?blive = "example_bridge_session None timed_out"
  let ?st = "example_state\<lparr>reconnect_delay := 32\<rparr>"
  have h: "\<forall>s \<in> set (replicate 7 ?fail). connect_fails s"
    "\<forall>s \<in> set (replicate 7 ?bfail). bridge_connect_fails s"
    "connect_fails ?fail" "bridge_connect_fails ?bfail" "reconnect_delay example_state = 2"
    by (simp_all add: connect_fails_def bridge_connect_fails_def example_session_def
        example_bridge_session_def timed_out_def example_state_def)
  have l: "s_connect (example_session None 0 timed_out) = None"
    "s_live_end (example_session None 0 timed_out) = Some (Raises (ZKNetworkError ''timed out''))"
    "s_connect (example_session None 0 None) = None"
    "\<forall>e. s_live_end (example_session None 0 None) \<noteq> Some (Raises e)"
    "b_connect ?blive = None"
    "b_live_end ?blive = Some (Raises (ZKNetworkError ''timed out''))"
    by (simp_all add: example_session_def example_bridge_session_def timed_out_def)
  have b: "map backoff [0..<7] = [2, 4, 8, 16, 32, 60, 60]"
    by code_simp
  have b7: "backoff 7 = 60"
    by (simp add: backoff_def)
  have e: "?st\<lparr>reconnect_delay := min (reconnect_delay ?st * 2) 60\<rparr> =
           example_state\<lparr>reconnect_delay := 60\<rparr>" "reconnect_delay ?st = 32"
    by simp_all
  from reconnect_backoff[where s = ?fail and p = example_params and st = ?st] h
  have 1: "session_pass example_params ?st ?fail =
             (?st\<lparr>reconnect_delay := min (reconnect_delay ?st * 2) 60\<rparr>,
              [ZkConnect, TimeSleep (reconnect_delay ?st)], False)"
    by blast
  from reconnect_backoff
         [where s = "example_session None 0 timed_out" and p = example_params and st = ?st
            and e = "ZKNetworkError ''timed out''"] l
  have 2: "sleeps (fst (snd (session_pass example_params ?st
             (example_session None 0 timed_out)))) = [2]"
    "reconnect_delay (fst (session_pass example_params ?st
       (example_session None 0 timed_out))) = 4"
    by blast+
  from reconnect_backoff
         [where s = "example_session None 0 None" and p = example_params and st = ?st] l
  have 3: "reconnect_delay (fst (session_pass example_params ?st
             (example_session None 0 None))) = 2"
    by blast
  from reconnect_backoff
         [where ss = "replicate 7 ?fail" and st = example_state and p = example_params
            and bss = "replicate 7 ?bfail" and bp = example_bridge_params
            and ip = "''192.168.1.81''" and port = 4370 and ck = 0 and u = 3] h
  have 4: "sleeps (snd (main_loop example_params example_state (replicate 7 ?fail))) =
             map backoff [0..<length (replicate 7 ?fail)]"
    "reconnect_delay (fst (main_loop example_params example_state (replicate 7 ?fail))) =
       backoff (length (replicate 7 ?fail))"
    "sleeps (monitor_scans example_bridge_params ''192.168.1.81'' 4370 0 3
       (replicate 7 ?bfail)) = map backoff [0..<length (replicate 7 ?bfail)]"
    by blast+
  from reconnect_backoff
         [where bs = ?bfail and bp = example_bridge_params
            and ip = "''192.168.1.81''" and port = 4370 and ck = 0 and u = 3
            and seen = "[]" and d = 32] h
  have 5: "sleeps (fst (snd (bridge_pass example_bridge_params ''192.168.1.81'' 4370 0 3
             ([], 32) ?bfail))) = [32]"
    by blast
  from reconnect_backoff
         [where bs = ?blive and bp = example_bridge_params
            and ip = "''192.168.1.81''" and port = 4370 and ck = 0 and u = 3
            and seen = "[]" and d = 32 and e = "ZKNetworkError ''timed out''"] l
  have 6: "sleeps (fst (snd (bridge_pass example_bridge_params ''192.168.1.81'' 4370 0 3
             ([], 32) ?blive))) = [2]"
    by blast
  from 1 2 3 4 5 6 b b7 e show ?thesis by (simp only: length_replicate)
qed

section \<open>The access synchronizer\<close>

lemma set_user_calls_append:
  "set_user_calls (xs @ ys) = set_user_calls xs @ set_user_calls ys"
  by (induction xs rule: set_user_calls.induct) auto

lemma warnings_append: "warnings (xs @ ys) = warnings xs @ warnings ys"
  by (induction xs rule: warnings.induct) auto

lemma expected_calls_Nil: "expected_calls g ud [] = []"
  by (simp add: expected_calls_def List.map_filter_simps)

lemma expected_calls_Cons:
  "expected_calls g ud (uid # uids) =
     (case ud uid of None \<Rightarrow> expected_calls g ud uids
      | Some user \<Rightarrow> group_call g uid user # expected_calls g ud uids)"
  by (simp add: expected_calls_def List.map_filter_simps split: option.splits)

lemma caught_failures_0: "caught_failures res k 0 = []"
  by (simp add: caught_failures_def List.map_filter_simps)

lemma caught_failures_Suc:
  "caught_failures res k (Suc n) =
     (case res k of None \<Rightarrow> [] | Some e \<Rightarrow> [str_exn e]) @ caught_failures res (Suc k) n"
proof -
  have "[k..<k + Suc n] = k # [Suc k..<Suc k + n]"
    by (simp add: upt_conv_Cons)
  then show ?thesis
    unfolding caught_failures_def
    by (simp add: List.map_filter_simps split: option.splits)
qed

lemma caught_failures_add:
  "caught_failures res k (m + n) = caught_failures res k m @ caught_failures res (k + m) n"
proof (induction m arbitrary: k)
  case 0
  then show ?case by (simp add: caught_failures_0)
next
  case (Suc m)
  from Suc[of "Suc k"] show ?case by (simp add: caught_failures_Suc)
qed

text \<open>
  One loop of the routine: the calls made are the expected ones whatever the terminal
  answers, and one warning is printed for each call that raises.
\<close>

lemma set_group_loop_char:
  "set_group_loop g ud res k uids = (tr, k') \<Longrightarrow>
   set_user_calls tr = expected_calls g ud uids \<and>
   k' = k + length (expected_calls g ud uids) \<and>
   warnings tr = caught_failures res k (length (expected_calls g ud uids))"
proof (induction uids arbitrary: k tr k')
  case Nil
  then show ?case by (simp add: expected_calls_Nil caught_failures_0)
next
  case (Cons uid uids)
  show ?case
  proof (cases "ud uid")
    case None
    with Cons.prems have "set_group_loop g ud res k uids = (tr, k')" by simp
    from Cons.IH[OF this] None show ?thesis by (simp add: expected_calls_Cons)
  next
    case (Some user)
    obtain rest k2 where r: "set_group_loop g ud res (Suc k) uids = (rest, k2)"
      by (metis prod.exhaust)
    from Cons.prems Some r have
      tr: "tr = PrintSettingUser uid g # ZkSetUser (group_call g uid user) #
                  (case res k of None \<Rightarrow> [] | Some e \<Rightarrow> [PrintWarning (str_exn e)]) @ rest"
      and k': "k' = k2"
      by (simp_all add: group_call_def)
    from Cons.IH[OF r] tr k' Some show ?thesis
      by (simp add: expected_calls_Cons set_user_calls_append warnings_append
          caught_failures_Suc split: option.splits)
  qed
qed

lemma configure_char:
  "set_user_calls (configure_device_access_groups (Inr users) res A D) =
     expected_calls ''1'' (user_dict_of users) A @ expected_calls ''0'' (user_dict_of users) D \<and>
   warnings (configure_device_access_groups (Inr users) res A D) =
     caught_failures res 0
       (length (expected_calls ''1'' (user_dict_of users) A) +
        length (expected_calls ''0'' (user_dict_of users) D))"
proof -
  obtain tr1 k where l1: "set_group_loop ''1'' (user_dict_of users) res 0 A = (tr1, k)"
    by (metis prod.exhaust)
  obtain tr2 k' where l2: "set_group_loop ''0'' (user_dict_of users) res k D = (tr2, k')"
    by (metis prod.exhaust)
  have c: "configure_device_access_groups (Inr users) res A D = ZkGetUsers # tr1 @ tr2"
    using l1 l2 by (simp add: configure_device_access_groups_def)
  from set_group_loop_char[OF l1] set_group_loop_char[OF l2] show ?thesis
    unfolding c by (simp add: set_user_calls_append warnings_append caught_failures_add)
qed

lemma expected_calls_user_id:
  "c \<in> set (expected_calls g ud uids) \<Longrightarrow>
   ud (su_user_id c) \<noteq> None \<and> su_user_id c \<in> set uids"
  by (induction uids)
     (auto simp: expected_calls_Nil expected_calls_Cons group_call_def split: option.splits)

text \<open>An identifier without a terminal user leaves no trace at all.\<close>

lemma configure_skip:
  assumes "user_dict_of users uid = None"
  shows "configure_device_access_groups (Inr users) res (uid # A) D =
           configure_device_access_groups (Inr users) res A D"
    and "configure_device_access_groups (Inr users) res A (uid # D) =
           configure_device_access_groups (Inr users) res A D"
  using assms by (simp_all add: configure_device_access_groups_def)

subsection \<open>The bridge's routine\<close>

lemma sync_loop_skip:
  "entry_biometric_id m = [] \<or> ud (entry_biometric_id m) = None \<Longrightarrow>
   sync_loop ud res k (MemberObject m # members) = sync_loop ud res k members"
  by auto

lemma sync_loop_call:
  assumes "entry_biometric_id m \<noteq> []" and "ud (entry_biometric_id m) = Some user"
    and "sync_loop ud res (Suc k) members = (tr2, results2, raised2)"
  shows "sync_loop ud res k (MemberObject m # members) =
    (ZkSetUser (group_call (if json_truthy (entry_allowed m) then ''1'' else ''0'')
                  (entry_biometric_id m) user) # tr2,
     (case res k of
        None \<Rightarrow> SyncSet (entry_biometric_id m) (entry_allowed m)
      | Some e \<Rightarrow> SyncFailed (entry_biometric_id m) (str_exn e)) # results2,
     raised2)"
  using assms by (simp add: group_call_def str_int_def Let_def)

lemma sync_loop_calls:
  "sync_loop ud res k members = (tr, results, raised) \<Longrightarrow>
   set_user_calls tr = List.map_filter (entry_call ud) (well_formed_prefix members)"
proof (induction members arbitrary: k tr results raised)
  case Nil
  then show ?case by (simp add: List.map_filter_simps)
next
  case (Cons x members)
  show ?case
  proof (cases x)
    case (NotAnObject t)
    with Cons.prems show ?thesis by (simp add: List.map_filter_simps)
  next
    case (MemberObject m)
    show ?thesis
    proof (cases "entry_biometric_id m = [] \<or> ud (entry_biometric_id m) = None")
      case True
      from Cons.prems have "sync_loop ud res k members = (tr, results, raised)"
        unfolding MemberObject sync_loop_skip[of m ud, OF True] .
      from Cons.IH[OF this] True MemberObject show ?thesis
        by (auto simp: List.map_filter_simps entry_call_def)
    next
      case False
      then obtain user where u: "ud (entry_biometric_id m) = Some user"
        and ne: "entry_biometric_id m \<noteq> []" by auto
      obtain tr2 results2 raised2 where
        r: "sync_loop ud res (Suc k) members = (tr2, results2, raised2)"
        by (metis prod_cases3)
      from Cons.prems have
        "tr = ZkSetUser (group_call (if json_truthy (entry_allowed m) then ''1'' else ''0'')
                (entry_biometric_id m) user) # tr2"
        unfolding MemberObject sync_loop_call[OF ne u r] by auto
      with Cons.IH[OF r] ne u MemberObject show ?thesis
        by (simp add: List.map_filter_simps entry_call_def)
    qed
  qed
qed

lemma sync_access_groups_calls:
  "set_user_calls (fst (sync_access_groups None (Inr members) (Inr users) res disc)) =
     List.map_filter (entry_call (user_dict_of users)) (well_formed_prefix members)"
proof -
  obtain tr results raised where
    l: "sync_loop (user_dict_of users) res 0 members = (tr, results, raised)"
    by (metis prod_cases3)
  have "set_user_calls (fst (sync_access_groups None (Inr members) (Inr users) res disc)) =
          set_user_calls tr"
    using l by (simp add: sync_access_groups_def set_user_calls_append split: option.splits)
  with sync_loop_calls[OF l] show ?thesis by simp
qed

text \<open>What the routine reads from the object of a listed member.\<close>

lemma listed_biometric_id:
  "member_object m = MemberObject e \<Longrightarrow> entry_biometric_id e = lm_id m"
  by (auto simp: member_object_def entry_biometric_id_def Let_def split: if_splits)

lemma listed_allowed:
  "member_object m = MemberObject e \<Longrightarrow> entry_allowed e = JBool (lm_allowed m)"
  by (auto simp: member_object_def entry_allowed_def split: if_splits)

lemma member_object_cases: "\<exists>e. member_object m = MemberObject e"
  by (simp add: member_object_def)

text \<open>
  On a list of listed members the loop attempts the expected assignments, records the
  expected results and leaves normally, whatever the terminal answers.
\<close>

lemma sync_loop_listed:
  "sync_loop ud res k (map member_object ms) =
     (map ZkSetUser (List.map_filter (listed_call ud) ms), listed_results ud res k ms, None)"
proof (induction ms arbitrary: k)
  case Nil
  show ?case by (simp add: List.map_filter_simps)
next
  case (Cons m ms)
  obtain e where e: "member_object m = MemberObject e"
    using member_object_cases by blast
  note id = listed_biometric_id[OF e] and al = listed_allowed[OF e]
  show ?case
  proof (cases "lm_id m = [] \<or> ud (lm_id m) = None")
    case True
    then have "entry_biometric_id e = [] \<or> ud (entry_biometric_id e) = None"
      by (simp add: id)
    from sync_loop_skip[of e ud, OF this] True Cons.IH[of k] show ?thesis
      by (auto simp: e List.map_filter_simps listed_call_def)
  next
    case False
    then obtain user where u: "ud (lm_id m) = Some user" and ne: "lm_id m \<noteq> []"
      by auto
    have u': "ud (entry_biometric_id e) = Some user" and ne': "entry_biometric_id e \<noteq> []"
      using u ne by (simp_all add: id)
    from sync_loop_call[OF ne' u' Cons.IH[of "Suc k"]] u ne show ?thesis
      unfolding id al by (simp add: e List.map_filter_simps listed_call_def)
  qed
qed

lemma set_user_calls_map: "set_user_calls (map ZkSetUser cs) = cs"
  by (induction cs) auto

lemma sync_access_groups_listed:
  "set_user_calls
     (fst (sync_access_groups None (Inr (map member_object ms)) (Inr users) res disc)) =
     List.map_filter (listed_call (user_dict_of users)) ms \<and>
   snd (sync_access_groups None (Inr (map member_object ms)) (Inr users) res None) =
     SyncSuccess (listed_results (user_dict_of users) res 0 ms)"
  by (simp add: sync_access_groups_def sync_loop_listed set_user_calls_append
      set_user_calls_map split: option.splits)

text \<open>
  Claim C9. When the terminal returns its users, the access-group routine calls
  \<^verbatim>\<open>set_user\<close> once for each identifier of the allowed list that has a terminal user
  (group 1), then once for each such identifier of the denied list (group 0), in order,
  whatever the terminal answers to the calls: the calls are the same as when none of
  them fails. Each call that raises adds one printed warning and nothing else. An
  identifier without a terminal user is skipped without any action or printed line: the
  routine does the same as if the identifier were not in the list. The routine of the
  bridge, given a list of members, calls \<^verbatim>\<open>set_user\<close> once for each member whose
  identifier is not empty and has a terminal user, with group 1 when the member is
  allowed and group 0 when it is not, in order and whatever the terminal answers; it
  skips the others; and it returns one result for each call, success with the flag or
  failure with the message of the exception. On any parsed list the calls are those of
  its elements up to the first one that is not an object.
\<close>

theorem sync_attempts_every_enrolled_identifier:
  "set_user_calls (configure_device_access_groups (Inr users) res A D) =
     expected_calls ''1'' (user_dict_of users) A @ expected_calls ''0'' (user_dict_of users) D \<and>
   set_user_calls (configure_device_access_groups (Inr users) res A D) =
     set_user_calls (configure_device_access_groups (Inr users) (\<lambda>k. None) A D) \<and>
   warnings (configure_device_access_groups (Inr users) res A D) =
     caught_failures res 0
       (length (expected_calls ''1'' (user_dict_of users) A) +
        length (expected_calls ''0'' (user_dict_of users) D)) \<and>
   (user_dict_of users uid = None \<longrightarrow>
      configure_device_access_groups (Inr users) res (uid # A) D =
        configure_device_access_groups (Inr users) res A D \<and>
      configure_device_access_groups (Inr users) res A (uid # D) =
        configure_device_access_groups (Inr users) res A D \<and>
      uid \<notin> su_user_id `
        set (set_user_calls (configure_device_access_groups (Inr users) res A D))) \<and>
   set_user_calls
     (fst (sync_access_groups None (Inr (map member_object ms)) (Inr users) res disc)) =
     List.map_filter (listed_call (user_dict_of users)) ms \<and>
   snd (sync_access_groups None (Inr (map member_object ms)) (Inr users) res None) =
     SyncSuccess (listed_results (user_dict_of users) res 0 ms) \<and>
   set_user_calls (fst (sync_access_groups None (Inr members) (Inr users) res disc)) =
     List.map_filter (entry_call (user_dict_of users)) (well_formed_prefix members)"
proof (intro conjI impI)
  show c: "set_user_calls (configure_device_access_groups (Inr users) res A D) =
     expected_calls ''1'' (user_dict_of users) A @ expected_calls ''0'' (user_dict_of users) D"
    using configure_char[of users res A D] by simp
  show "set_user_calls (configure_device_access_groups (Inr users) res A D) =
     set_user_calls (configure_device_access_groups (Inr users) (\<lambda>k. None) A D)"
    using configure_char[of users res A D] configure_char[of users "\<lambda>k. None" A D] by simp
  show "warnings (configure_device_access_groups (Inr users) res A D) =
     caught_failures res 0
       (length (expected_calls ''1'' (user_dict_of users) A) +
        length (expected_calls ''0'' (user_dict_of users) D))"
    using configure_char[of users res A D] by simp
  show "configure_device_access_groups (Inr users) res (uid # A) D =
          configure_device_access_groups (Inr users) res A D"
    "configure_device_access_groups (Inr users) res A (uid # D) =
          configure_device_access_groups (Inr users) res A D"
    if "user_dict_of users uid = None"
    using that by (simp_all add: configure_skip)
  show "uid \<notin> su_user_id `
          set (set_user_calls (configure_device_access_groups (Inr users) res A D))"
    if "user_dict_of users uid = None"
    using that expected_calls_user_id[of _ _ "user_dict_of users"] unfolding c by fastforce
  show "set_user_calls
     (fst (sync_access_groups None (Inr (map member_object ms)) (Inr users) res disc)) =
     List.map_filter (listed_call (user_dict_of users)) ms"
    "snd (sync_access_groups None (Inr (map member_object ms)) (Inr users) res None) =
     SyncSuccess (listed_results (user_dict_of users) res 0 ms)"
    using sync_access_groups_listed[of ms users res disc] by simp_all
  show "set_user_calls (fst (sync_access_groups None (Inr members) (Inr users) res disc)) =
     List.map_filter (entry_call (user_dict_of users)) (well_formed_prefix members)"
    by (rule sync_access_groups_calls)
qed

theorem sync_attempts_every_enrolled_identifier_witness:
  "set_user_calls (configure_device_access_groups (Inr example_users) first_call_fails
       [''1001'', ''1005''] [''1002'']) =
     [group_call ''1'' ''1001'' (example_users ! 0),
      group_call ''0'' ''1002'' (example_users ! 1)] \<and>
   warnings (configure_device_access_groups (Inr example_users) first_call_fails
       [''1001'', ''1005''] [''1002'']) = [''busy''] \<and>
   user_dict_of example_users ''1005'' = None \<and>
   ''1005'' \<notin> su_user_id `
     set (set_user_calls (configure_device_access_groups (Inr example_users) first_call_fails
       [''1001'', ''1005''] [''1002''])) \<and>
   set_user_calls (fst (sync_access_groups None (Inr (map member_object example_listed))
       (Inr example_users) first_call_fails None)) =
     [\<lparr>su_uid = 1, su_name = ''Ann'', su_privilege = 0, su_password = [],
       su_group_id = ''1'', su_user_id = ''1001'', su_card = 0\<rparr>,
      \<lparr>su_uid = 2, su_name = ''Bob'', su_privilege = 0, su_password = [],
       su_group_id = ''0'', su_user_id = ''1002'', su_card = 0\<rparr>] \<and>
   snd (sync_access_groups None (Inr (map member_object example_listed))
       (Inr example_users) first_call_fails None) =
     SyncSuccess [SyncFailed ''1001'' ''busy'', SyncSet ''1002'' (JBool False)]"
proof -
  have u: "user_dict_of example_users ''1005'' = None"
    by (simp add: user_dict_of_def example_users_def)
  have e: "expected_calls ''1'' (user_dict_of example_users) [''1001'', ''1005''] =
             [group_call ''1'' ''1001'' (example_users ! 0)]"
    "expected_calls ''0'' (user_dict_of example_users) [''1002''] =
             [group_call ''0'' ''1002'' (example_users ! 1)]"
    by (simp_all add: expected_calls_def List.map_filter_simps user_dict_of_def
        example_users_def)
  have c: "caught_failures first_call_fails 0 (Suc (Suc 0)) = [''busy'']"
    by (simp add: caught_failures_def List.map_filter_simps upt_conv_Cons
        first_call_fails_def)
  have l: "List.map_filter (listed_call (user_dict_of example_users)) example_listed =
     [\<lparr>su_uid = 1, su_name = ''Ann'', su_privilege = 0, su_password = [],
       su_group_id = ''1'', su_user_id = ''1001'', su_card = 0\<rparr>,
      \<lparr>su_uid = 2, su_name = ''Bob'', su_privilege = 0, su_password = [],
       su_group_id = ''0'', su_user_id = ''1002'', su_card = 0\<rparr>]"
    by (simp add: List.map_filter_simps listed_call_def example_listed_def user_dict_of_def
        example_users_def group_call_def USER_DEFAULT_def)
  have r: "listed_results (user_dict_of example_users) first_call_fails 0 example_listed =
     [SyncFailed ''1001'' ''busy'', SyncSet ''1002'' (JBool False)]"
    by (simp add: example_listed_def user_dict_of_def example_users_def first_call_fails_def)
  from sync_attempts_every_enrolled_identifier
         [of example_users first_call_fails "[''1001'', ''1005'']" "[''1002'']" "''1005''"
            example_listed None "[]"] u e c l r
  show ?thesis by (simp add: group_call_def)
qed

section \<open>The bridge's monitoring command\<close>

lemma bridge_pass_no_unlock:
  assumes "bridge_pass bp ip port ck u st s = (st', tr, stop)" and "a \<in> set tr"
  shows "\<not> is_unlock a"
proof -
  obtain seen d where st: "st = (seen, d)" by (cases st)
  obtain s3 tr3 where l: "bridge_live_loop bp seen (b_events s) = (s3, tr3)"
    by (metis prod.exhaust)
  have "a \<in> set tr3 \<Longrightarrow> \<not> is_unlock a"
    using bridge_live_loop_actions[OF l, of a] by auto
  with assms l show ?thesis
    unfolding st bridge_pass_def
    by (auto simp: Let_def split: option.splits signal.splits)
qed

lemma monitor_loop_no_unlock:
  "monitor_loop bp ip port ck u st ss = (st', tr) \<Longrightarrow> a \<in> set tr \<Longrightarrow> \<not> is_unlock a"
proof (induction ss arbitrary: st st' tr)
  case Nil
  then show ?case by simp
next
  case (Cons s ss)
  obtain st1 tr1 stop where b: "bridge_pass bp ip port ck u st s = (st1, tr1, stop)"
    by (metis prod_cases3)
  obtain st2 tr2 where m: "monitor_loop bp ip port ck u st1 ss = (st2, tr2)"
    by (metis prod.exhaust)
  from Cons.prems b m have "a \<in> set tr1 \<or> a \<in> set tr2"
    by (auto split: if_splits)
  then show ?case
    using bridge_pass_no_unlock[OF b] Cons.IH[OF m] by blast
qed

lemma bridge_pass_unlock_seconds:
  "bridge_pass bp ip port ck u1 st s = bridge_pass bp ip port ck u2 st s"
  by (simp add: bridge_pass_def)

lemma monitor_loop_unlock_seconds:
  "monitor_loop bp ip port ck u1 st ss = monitor_loop bp ip port ck u2 st ss"
proof (induction ss arbitrary: st)
  case Nil
  show ?case by simp
next
  case (Cons s ss)
  show ?case
    unfolding monitor_loop.simps bridge_pass_unlock_seconds[of bp ip port ck u1 st s u2]
      Cons.IH ..
qed

text \<open>
  Claim C10. Two runs of \<^verbatim>\<open>monitor_scans\<close> on the same address, port and key, against
  the same behaviour of the terminal and of the clock, that differ only in
  \<^verbatim>\<open>unlock_seconds\<close> perform the same actions; in particular they print the same lines
  of JSON. No run of \<^verbatim>\<open>monitor_scans\<close> calls the relay unlock.
\<close>

theorem monitor_scans_ignores_unlock_seconds:
  "monitor_scans bp ip port ck u1 ss = monitor_scans bp ip port ck u2 ss \<and>
   json_lines (monitor_scans bp ip port ck u1 ss) =
     json_lines (monitor_scans bp ip port ck u2 ss) \<and>
   filter is_unlock (monitor_scans bp ip port ck u1 ss) = []"
proof -
  have eq: "monitor_scans bp ip port ck u1 ss = monitor_scans bp ip port ck u2 ss"
    unfolding monitor_scans_def monitor_loop_unlock_seconds[of bp ip port ck u1 _ ss u2] ..
  obtain st' tr where m: "monitor_loop bp ip port ck u1 ([], 2) ss = (st', tr)"
    by (metis prod.exhaust)
  have "\<forall>a \<in> set tr. \<not> is_unlock a"
    using monitor_loop_no_unlock[OF m] by blast
  then have "filter is_unlock (monitor_scans bp ip port ck u1 ss) = []"
    using m by (simp add: monitor_scans_def)
  with eq show ?thesis by simp
qed

theorem monitor_scans_ignores_unlock_seconds_witness:
  "json_lines (monitor_scans example_bridge_params ''192.168.1.81'' 4370 0 3
     [example_bridge_session None timed_out]) =
   json_lines (monitor_scans example_bridge_params ''192.168.1.81'' 4370 0 30
     [example_bridge_session None timed_out]) \<and>
   filter is_unlock (monitor_scans example_bridge_params ''192.168.1.81'' 4370 0 3
     [example_bridge_session None timed_out]) = [] \<and>
   json_lines (monitor_scans example_bridge_params ''192.168.1.81'' 4370 0 3
     [example_bridge_session None timed_out]) =
   [StatusLine ''Starting biometric monitoring service'',
    StatusLine ''Connecting to 192.168.1.81:4370'',
    ConnectedLine ''192.168.1.81'' 4370,
    ScanLine ''1001'' ''5'',
    ErrorLine ''timed out'',
    StatusLine ''Reconnecting in 2 seconds...'']"
proof -
  have ev: "json_lines (monitor_scans example_bridge_params ''192.168.1.81'' 4370 0 3
     [example_bridge_session None timed_out]) =
   [StatusLine ''Starting biometric monitoring service'',
    StatusLine ''Connecting to 192.168.1.81:4370'',
    ConnectedLine ''192.168.1.81'' 4370,
    ScanLine ''1001'' ''5'',
    ErrorLine ''timed out'',
    StatusLine ''Reconnecting in 2 seconds...'']"
    by (simp add: monitor_scans_def bridge_pass_def example_bridge_session_def
        bridge_handle_event_def dedup_def event_key_def example_bridge_params_def
        example_bridge_event_def timed_out_def str_int_def max_reconnect_delay_def Let_def)
  from monitor_scans_ignores_unlock_seconds
         [of example_bridge_params "''192.168.1.81''" 4370 0 3
            "[example_bridge_session None timed_out]" 30] ev
  show ?thesis by blast
qed

end
